theory Spec2Isabelle
  imports Complex_Main "HOL-Library.AList" "HOL-Library.Char_ord" "HOL-Library.List_Lexorder"
    "HOL-Library.Product_Lexorder"
begin

section \<open>Python strings\<close>

text \<open>
  A Python \<open>str\<close> is modelled as a \<open>string\<close> of 8-bit characters; the model covers
  ASCII text, where the whitespace of \<open>str.strip()\<close> is the ten characters below and
  the digits of the regular expression class \<open>\d\<close> are \<open>0\<close> to \<open>9\<close>.
  String comparison is lexicographic on character codes, as Python's.
\<close>

definition is_space :: "char \<Rightarrow> bool" where
  "is_space c = ((of_char c :: nat) \<in> {9, 10, 11, 12, 13, 28, 29, 30, 31, 32})"

definition strip :: "string \<Rightarrow> string" where
  "strip s = rev (dropWhile is_space (rev (dropWhile is_space s)))"

text \<open>\<open>value or ""\<close> for a value that is a string or \<open>None\<close>.\<close>

definition or_empty :: "string option \<Rightarrow> string" where
  "or_empty v = (case v of None \<Rightarrow> [] | Some s \<Rightarrow> s)"

text \<open>\<open>text.replace(",", ".")\<close>\<close>

definition replace_comma :: "string \<Rightarrow> string" where
  "replace_comma text = map (\<lambda>c. if c = CHR '','' then CHR ''.'' else c) text"

text \<open>\<open>sep.join(xs)\<close>\<close>

fun join :: "string \<Rightarrow> string list \<Rightarrow> string" where
  "join sep [] = []"
| "join sep [x] = x"
| "join sep (x # y # ys) = x @ sep @ join sep (y # ys)"

definition is_digit :: "char \<Rightarrow> bool" where
  "is_digit c = (48 \<le> (of_char c :: nat) \<and> (of_char c :: nat) \<le> 57)"

definition is_nonzero_digit :: "char \<Rightarrow> bool" where
  "is_nonzero_digit c = (49 \<le> (of_char c :: nat) \<and> (of_char c :: nat) \<le> 57)"

definition digit_val :: "char \<Rightarrow> nat" where
  "digit_val c = of_char c - 48"

definition digit_char :: "nat \<Rightarrow> char" where
  "digit_char n = char_of (48 + n)"

datatype error = ValueError | AttributeError

section \<open>Dates: \<open>datetime.strptime\<close> and \<open>strftime\<close> with the format \<open>%d.%m.%Y\<close>\<close>

text \<open>
  A \<open>datetime\<close> built by \<open>strptime\<close> with this format has midnight as its time, so it
  is modelled by its (year, month, day); the order on triples is lexicographic, which is
  the chronological order in which Python compares two such values.
\<close>

type_synonym date = "nat \<times> nat \<times> nat"

definition is_leap :: "nat \<Rightarrow> bool" where
  "is_leap y = (y mod 4 = 0 \<and> (y mod 100 \<noteq> 0 \<or> y mod 400 = 0))"

definition days_in_month :: "nat \<Rightarrow> nat \<Rightarrow> nat" where
  "days_in_month y m =
     (if m = 2 then (if is_leap y then 29 else 28)
      else if m = 4 \<or> m = 6 \<or> m = 9 \<or> m = 11 then 30 else 31)"

text \<open>The check made by the \<open>date\<close> constructor (\<open>MINYEAR = 1\<close>, \<open>MAXYEAR = 9999\<close>).\<close>

definition valid_date :: "date \<Rightarrow> bool" where
  "valid_date dt = (case dt of (y, m, d) \<Rightarrow>
     1 \<le> y \<and> y \<le> 9999 \<and> 1 \<le> m \<and> m \<le> 12 \<and> 1 \<le> d \<and> d \<le> days_in_month y m)"

text \<open>
  \<open>strptime\<close> compiles the format into the regular expression
  \<^verbatim>\<open>(?P<d>3[0-1]|[1-2]\d|0[1-9]|[1-9]| [1-9])\.(?P<m>1[0-2]|0[1-9]|[1-9])\.(?P<Y>\d\d\d\d)\<close>,
  matches it at the start of the string, and raises \<open>ValueError\<close> when there is no
  match, when unconverted data remains after the match, or when the three numbers are
  not a date. The alternatives of a group are tried in the order written and the
  next one is taken when the rest of the expression fails (backtracking).
\<close>

fun first_match :: "('a \<Rightarrow> 'b option) \<Rightarrow> 'a list \<Rightarrow> 'b option" where
  "first_match f [] = None"
| "first_match f (x # xs) = (case f x of Some y \<Rightarrow> Some y | None \<Rightarrow> first_match f xs)"

definition day_alts :: "string \<Rightarrow> (nat \<times> string) list" where
  "day_alts s = (case s of
       [] \<Rightarrow> []
     | [c1] \<Rightarrow> (if is_nonzero_digit c1 then [(digit_val c1, [])] else [])
     | c1 # c2 # r \<Rightarrow>
         (if c1 = CHR ''3'' \<and> (c2 = CHR ''0'' \<or> c2 = CHR ''1'')
          then [(30 + digit_val c2, r)] else []) @
         (if (c1 = CHR ''1'' \<or> c1 = CHR ''2'') \<and> is_digit c2
          then [(10 * digit_val c1 + digit_val c2, r)] else []) @
         (if c1 = CHR ''0'' \<and> is_nonzero_digit c2 then [(digit_val c2, r)] else []) @
         (if is_nonzero_digit c1 then [(digit_val c1, c2 # r)] else []) @
         (if c1 = CHR '' '' \<and> is_nonzero_digit c2 then [(digit_val c2, r)] else []))"

definition month_alts :: "string \<Rightarrow> (nat \<times> string) list" where
  "month_alts s = (case s of
       [] \<Rightarrow> []
     | [c1] \<Rightarrow> (if is_nonzero_digit c1 then [(digit_val c1, [])] else [])
     | c1 # c2 # r \<Rightarrow>
         (if c1 = CHR ''1'' \<and> (c2 = CHR ''0'' \<or> c2 = CHR ''1'' \<or> c2 = CHR ''2'')
          then [(10 + digit_val c2, r)] else []) @
         (if c1 = CHR ''0'' \<and> is_nonzero_digit c2 then [(digit_val c2, r)] else []) @
         (if is_nonzero_digit c1 then [(digit_val c1, c2 # r)] else []))"

definition match_dot :: "string \<Rightarrow> string option" where
  "match_dot s = (case s of [] \<Rightarrow> None | c # r \<Rightarrow> if c = CHR ''.'' then Some r else None)"

definition match_year :: "string \<Rightarrow> (nat \<times> string) option" where
  "match_year s = (case s of
       a # b # c # d # r \<Rightarrow>
         if is_digit a \<and> is_digit b \<and> is_digit c \<and> is_digit d
         then Some (1000 * digit_val a + 100 * digit_val b + 10 * digit_val c + digit_val d, r)
         else None
     | _ \<Rightarrow> None)"

definition match_month_year :: "string \<Rightarrow> (nat \<times> nat \<times> string) option" where
  "match_month_year s =
     first_match (\<lambda>(m, r). case match_dot r of None \<Rightarrow> None
        | Some r' \<Rightarrow> (case match_year r' of None \<Rightarrow> None
            | Some (y, rest) \<Rightarrow> Some (m, y, rest)))
       (month_alts s)"

definition regex_match :: "string \<Rightarrow> (nat \<times> nat \<times> nat \<times> string) option" where
  "regex_match s =
     first_match (\<lambda>(d, r). case match_dot r of None \<Rightarrow> None
        | Some r' \<Rightarrow> (case match_month_year r' of None \<Rightarrow> None
            | Some (m, y, rest) \<Rightarrow> Some (d, m, y, rest)))
       (day_alts s)"

text \<open>\<open>None\<close> stands for the \<open>ValueError\<close> that every caller in the scripts catches
  or lets propagate.\<close>

definition strptime :: "string \<Rightarrow> date option" where
  "strptime s = (case regex_match s of
       None \<Rightarrow> None
     | Some (d, m, y, rest) \<Rightarrow>
         if rest \<noteq> [] then None
         else if valid_date (y, m, d) then Some (y, m, d) else None)"

text \<open>
  \<open>strftime\<close>: day and month as two digits; the year as the C library writes it for
  \<open>%Y\<close>. With glibc, on which CPython 3.11 runs under Linux, that is the decimal
  numeral of the year without leading zeros, so a year before 1000 has fewer than the
  four digits that \<open>strptime\<close> asks for.
\<close>

definition pad2 :: "nat \<Rightarrow> string" where
  "pad2 n = [digit_char (n div 10), digit_char (n mod 10)]"

fun show_nat :: "nat \<Rightarrow> string" where
  "show_nat n = (if n < 10 then [digit_char n] else show_nat (n div 10) @ [digit_char (n mod 10)])"

declare show_nat.simps [simp del]

definition strftime :: "date \<Rightarrow> string" where
  "strftime dt = (case dt of (y, m, d) \<Rightarrow> pad2 d @ ''.'' @ pad2 m @ ''.'' @ show_nat y)"

section \<open>Numbers: \<open>float()\<close>, \<open>str()\<close> of a float and \<open>statistics.mean\<close>\<close>

text \<open>
  The scripts take three operations on floating-point numbers from Python: \<open>float(text)\<close>,
  the text \<open>csv.writer\<close> writes for a float (\<open>str(x)\<close>) and \<open>statistics.mean\<close>.
  Their results are binary floating-point values, which are not modelled: the type \<open>'f\<close>
  of numbers is arbitrary and the three operations are the fields of a record that every
  function below takes as its first argument. The record has a fourth field, the
  comparison \<open>x == y\<close> of two floats, which the scripts do not use: it is what
  ``numerically equal'' means in the claim about the values read back.
  What is modelled is which texts \<open>float()\<close> accepts, since it decides between a number
  and ``absent'': the grammar of the Python library reference,
  \<^verbatim>\<open>
  floatvalue   ::= [sign] (floatnumber | infinity | nan)
  floatnumber  ::= number [exponent]
  number       ::= [digitpart] "." digitpart | digitpart ["."]
  exponent     ::= ("e" | "E") [sign] digitpart
  digitpart    ::= digit (["_"] digit)*
  infinity     ::= "Infinity" | "inf"      nan ::= "nan"
  \<close>
  with \<open>inf\<close>, \<open>infinity\<close> and \<open>nan\<close> in any case, and whitespace around the value
  ignored.
\<close>

record 'f float_lib =
  float_value :: "string \<Rightarrow> 'f"
  float_str :: "'f \<Rightarrow> string"
  mean :: "'f list \<Rightarrow> 'f"
  float_eq :: "'f \<Rightarrow> 'f \<Rightarrow> bool"

fun digitpart :: "string \<Rightarrow> bool" where
  "digitpart [] = False"
| "digitpart [c] = is_digit c"
| "digitpart (c # d # r) =
     (is_digit c \<and> (if d = CHR ''_'' then digitpart r else digitpart (d # r)))"

definition is_digitpart_char :: "char \<Rightarrow> bool" where
  "is_digitpart_char c = (is_digit c \<or> c = CHR ''_'')"

definition strip_sign :: "string \<Rightarrow> string" where
  "strip_sign s = (case s of [] \<Rightarrow> []
     | c # r \<Rightarrow> if c = CHR ''+'' \<or> c = CHR ''-'' then r else s)"

text \<open>\<open>ci_match s pat\<close>: \<open>s\<close> is the lower-case word \<open>pat\<close> up to the case of its letters.\<close>

definition ci_match :: "string \<Rightarrow> string \<Rightarrow> bool" where
  "ci_match s pat = list_all2
     (\<lambda>c p. (of_char c :: nat) = of_char p \<or> (of_char c :: nat) + 32 = of_char p) s pat"

definition floatnumber :: "string \<Rightarrow> bool" where
  "floatnumber s =
    (let ip = takeWhile is_digitpart_char s;
         r1 = dropWhile is_digitpart_char s;
         has_point = (case r1 of [] \<Rightarrow> False | c # _ \<Rightarrow> c = CHR ''.'');
         fp = (if has_point then takeWhile is_digitpart_char (tl r1) else []);
         r2 = (if has_point then dropWhile is_digitpart_char (tl r1) else r1);
         number_ok =
           (if has_point
            then (ip = [] \<or> digitpart ip) \<and> (fp = [] \<or> digitpart fp) \<and> (ip \<noteq> [] \<or> fp \<noteq> [])
            else digitpart ip);
         exponent_ok = (case r2 of [] \<Rightarrow> True
           | e # r3 \<Rightarrow> (e = CHR ''e'' \<or> e = CHR ''E'') \<and> digitpart (strip_sign r3))
     in number_ok \<and> exponent_ok)"

definition float_syntax :: "string \<Rightarrow> bool" where
  "float_syntax s =
    (let u = strip_sign (strip s)
     in ci_match u ''inf'' \<or> ci_match u ''infinity'' \<or> ci_match u ''nan'' \<or> floatnumber u)"

text \<open>\<open>float(text)\<close>: \<open>None\<close> is the \<open>ValueError\<close>.\<close>

definition py_float :: "'f float_lib \<Rightarrow> string \<Rightarrow> 'f option" where
  "py_float L text = (if float_syntax text then Some (float_value L text) else None)"

section \<open>\<open>clean_data.py\<close>\<close>

text \<open>
  A row of \<open>csv.DictReader\<close> is a record of the columns the script reads. A field is
  \<open>None\<close> where the row of the file is shorter than the header (the reader's
  \<open>restval\<close>); a column that the header lacks reads as the default \<open>""\<close> of
  \<open>row.get\<close>, the empty string.
\<close>

definition parse_float :: "'f float_lib \<Rightarrow> string option \<Rightarrow> 'f option" where
  "parse_float L v = (case v of
       None \<Rightarrow> None
     | Some s \<Rightarrow>
         (let text = strip s
          in if text = [] then None else py_float L (replace_comma text)))"

record region_row =
  region_oblast :: "string option"
  region_gid :: "string option"

text \<open>
  A \<open>dict\<close> is an association list in insertion order: assigning to a key that is
  present replaces its value in place, assigning to a new key appends it
  (\<open>AList.update\<close>), and a lookup is \<open>map_of\<close>.
  \<open>.strip()\<close> on a field that is \<open>None\<close> raises \<open>AttributeError\<close>.
\<close>

fun load_region_ids_loop ::
  "(string \<times> string) list \<Rightarrow> region_row list \<Rightarrow> error + (string \<times> string) list" where
  "load_region_ids_loop mapping [] = Inr mapping"
| "load_region_ids_loop mapping (row # rows) =
     (case region_oblast row of
        None \<Rightarrow> Inl AttributeError
      | Some o_raw \<Rightarrow>
          (case region_gid row of
             None \<Rightarrow> Inl AttributeError
           | Some g_raw \<Rightarrow>
               (let oblast = strip o_raw; gid = strip g_raw
                in load_region_ids_loop
                     (if oblast \<noteq> [] then AList.update oblast gid mapping else mapping) rows)))"

definition load_region_ids :: "region_row list \<Rightarrow> error + (string \<times> string) list" where
  "load_region_ids rows = load_region_ids_loop [] rows"

record raw_row =
  raw_date :: "string option"
  raw_oblast :: "string option"
  raw_subqueue :: "string option"
  raw_scheduled :: "string option"
  raw_actual :: "string option"

text \<open>
  The value of a key of \<open>data\<close>: the two lists of numbers and the set of sub-queues.
  The set is a list without duplicates (\<open>List.insert\<close> adds an element that is not
  there); the script reads it only through \<open>sorted\<close>.
\<close>

record 'f cell =
  scheduled :: "'f list"
  actual :: "'f list"
  subqueues :: "string list"

definition empty_cell :: "'f cell" where
  "empty_cell = \<lparr>scheduled = [], actual = [], subqueues = []\<rparr>"

type_synonym 'f aggregated = "((string \<times> string) \<times> 'f cell) list"

text \<open>
  The head of the loop body of \<open>load_raw_data\<close>: the key under which a row is
  aggregated, or \<open>None\<close> when one of the three \<open>continue\<close> statements skips the row.
\<close>

definition row_key :: "date \<Rightarrow> raw_row \<Rightarrow> (string \<times> string) option" where
  "row_key start_date row =
    (let rd = strip (or_empty (raw_date row));
         oblast = strip (or_empty (raw_oblast row))
     in if rd = [] \<or> oblast = [] then None
        else (case strptime rd of
                None \<Rightarrow> None
              | Some date_obj \<Rightarrow>
                  if date_obj < start_date then None
                  else Some (strftime date_obj, oblast)))"

text \<open>\<open>data.setdefault(key, default)\<close>\<close>

definition setdefault :: "'k \<Rightarrow> 'v \<Rightarrow> ('k \<times> 'v) list \<Rightarrow> ('k \<times> 'v) list" where
  "setdefault k v xs = (case map_of xs k of None \<Rightarrow> AList.update k v xs | Some _ \<Rightarrow> xs)"

definition add_row :: "'f float_lib \<Rightarrow> date \<Rightarrow> 'f aggregated \<Rightarrow> raw_row \<Rightarrow> 'f aggregated" where
  "add_row L start_date data row =
    (case row_key start_date row of
       None \<Rightarrow> data
     | Some key \<Rightarrow>
        (let subqueue = strip (or_empty (raw_subqueue row));
             sched = parse_float L (raw_scheduled row);
             act = parse_float L (raw_actual row);
             data1 = setdefault key empty_cell data;
             data2 = (case sched of None \<Rightarrow> data1
                | Some x \<Rightarrow> AList.map_entry key (\<lambda>c. c\<lparr>scheduled := scheduled c @ [x]\<rparr>) data1);
             data3 = (case act of None \<Rightarrow> data2
                | Some x \<Rightarrow> AList.map_entry key (\<lambda>c. c\<lparr>actual := actual c @ [x]\<rparr>) data2)
         in if subqueue \<noteq> []
            then AList.map_entry key (\<lambda>c. c\<lparr>subqueues := List.insert subqueue (subqueues c)\<rparr>) data3
            else data3))"

definition load_raw_data :: "'f float_lib \<Rightarrow> date \<Rightarrow> raw_row list \<Rightarrow> 'f aggregated" where
  "load_raw_data L start_date rows = foldl (add_row L start_date) [] rows"

text \<open>A data row of the clean dataset, as the six texts that \<open>csv.writer\<close> writes.\<close>

record clean_row =
  Date :: string
  Oblast :: string
  GID_1 :: string
  Scheduled_outages :: string
  Actual_outages :: string
  Subqueues :: string

text \<open>The set comprehension \<open>{d for (d, _) in aggregated.keys()}\<close>.\<close>

definition date_strings_of :: "'f aggregated \<Rightarrow> string list" where
  "date_strings_of aggregated = remdups (map (\<lambda>kv. fst (fst kv)) aggregated)"

text \<open>
  \<open>sorted(date_strings, key=lambda d: datetime.strptime(d, RAW_DATE_FMT))\<close>: the keys of
  all elements are computed first, so a key that does not parse is a \<open>ValueError\<close>
  of the whole call; the sort is stable.
\<close>

definition sorted_by_date :: "string list \<Rightarrow> error + string list" where
  "sorted_by_date ds =
    (case those (map strptime ds) of
       None \<Rightarrow> Inl ValueError
     | Some keys \<Rightarrow> Inr (map snd (sort_key fst (zip keys ds))))"

text \<open>
  The text written for an average: \<open>mean(xs) if xs else ""\<close>, which \<open>csv.writer\<close>
  writes with \<open>str\<close>.
\<close>

definition avg_text :: "'f float_lib \<Rightarrow> 'f list \<Rightarrow> string" where
  "avg_text L xs = (if xs \<noteq> [] then float_str L (mean L xs) else [])"

definition output_row ::
  "'f float_lib \<Rightarrow> (string \<times> string) list \<Rightarrow> 'f aggregated \<Rightarrow> string \<Rightarrow> string \<Rightarrow> clean_row" where
  "output_row L region_ids aggregated date oblast =
    (let values = (case map_of aggregated (date, oblast) of None \<Rightarrow> empty_cell | Some c \<Rightarrow> c);
         scheduled_avg = avg_text L (scheduled values);
         actual_avg = avg_text L (actual values);
         subqueue_text = join '', '' (sort (subqueues values))
     in \<lparr>Date = date, Oblast = oblast,
         GID_1 = (case map_of region_ids oblast of None \<Rightarrow> [] | Some g \<Rightarrow> g),
         Scheduled_outages = scheduled_avg, Actual_outages = actual_avg,
         Subqueues = subqueue_text\<rparr>)"

definition write_rows ::
  "'f float_lib \<Rightarrow> (string \<times> string) list \<Rightarrow> 'f aggregated \<Rightarrow> string list \<Rightarrow> string list
     \<Rightarrow> clean_row list" where
  "write_rows L region_ids aggregated dates oblasts =
     concat (map (\<lambda>date. map (output_row L region_ids aggregated date) oblasts) dates)"

text \<open>
  \<open>main\<close>, from the \<open>--start-date\<close> argument and the rows of the two input files to
  the data rows written (the header row is constant and left out).
\<close>

definition main ::
  "'f float_lib \<Rightarrow> string \<Rightarrow> region_row list \<Rightarrow> raw_row list \<Rightarrow> error + clean_row list" where
  "main L start_arg region_rows raw_rows =
    (case strptime start_arg of
       None \<Rightarrow> Inl ValueError
     | Some start_date \<Rightarrow>
        (case load_region_ids region_rows of
           Inl e \<Rightarrow> Inl e
         | Inr region_ids \<Rightarrow>
            (let aggregated = load_raw_data L start_date raw_rows
             in case sorted_by_date (date_strings_of aggregated) of
                  Inl e \<Rightarrow> Inl e
                | Inr dates \<Rightarrow>
                    Inr (write_rows L region_ids aggregated dates (sort (map fst region_ids))))))"

section \<open>\<open>build_maps.py\<close>\<close>

text \<open>\<open>parse_float\<close> of \<open>build_maps.py\<close>, a second copy of the function in that file.\<close>

definition parse_float_maps :: "'f float_lib \<Rightarrow> string option \<Rightarrow> 'f option" where
  "parse_float_maps L v = (case v of
       None \<Rightarrow> None
     | Some s \<Rightarrow>
         (let text = strip s
          in if text = [] then None else py_float L (replace_comma text)))"

text \<open>A row of the \<open>csv.DictReader\<close> over the clean dataset, with the columns read.\<close>

record dict_row =
  col_Date :: "string option"
  col_GID_1 :: "string option"
  col_Scheduled_outages :: "string option"
  col_Actual_outages :: "string option"
  col_Subqueues :: "string option"

text \<open>The value stored under \<open>data[date][gid]\<close>; \<open>None\<close> is Python's \<open>None\<close>.\<close>

record 'f entry =
  entry_scheduled :: "'f option"
  entry_actual :: "'f option"
  entry_subqueues :: string

type_synonym 'f day_data = "(string \<times> (string \<times> 'f entry) list) list"

definition row_entry :: "'f float_lib \<Rightarrow> dict_row \<Rightarrow> 'f entry" where
  "row_entry L row =
     \<lparr>entry_scheduled = parse_float_maps L (col_Scheduled_outages row),
      entry_actual = parse_float_maps L (col_Actual_outages row),
      entry_subqueues = strip (or_empty (col_Subqueues row))\<rparr>"

text \<open>
  The loop body of \<open>load_clean_data\<close> on the pair of \<open>data\<close> and \<open>dates\<close>. The
  \<open>ValueError\<close> of \<open>strptime\<close> is caught after the entry has been stored.
\<close>

definition load_clean_step ::
  "'f float_lib \<Rightarrow> 'f day_data \<times> date list \<Rightarrow> dict_row \<Rightarrow> 'f day_data \<times> date list" where
  "load_clean_step L st row =
    (case st of (data, dates) \<Rightarrow>
      (let date = strip (or_empty (col_Date row));
           gid = strip (or_empty (col_GID_1 row))
       in if date = [] \<or> gid = [] then (data, dates)
          else
           (let data1 = setdefault date [] data;
                data2 = AList.map_entry date (AList.update gid (row_entry L row)) data1
            in (data2, (case strptime date of None \<Rightarrow> dates | Some d \<Rightarrow> dates @ [d])))))"

definition load_clean_data :: "'f float_lib \<Rightarrow> dict_row list \<Rightarrow> string list \<times> 'f day_data" where
  "load_clean_data L rows =
    (case foldl (load_clean_step L) ([], []) rows of (data, dates) \<Rightarrow>
      (let unique_dates = sort (remdups dates);
           date_strings = map strftime unique_dates
       in (date_strings, data)))"

text \<open>\<open>data[date][gid]\<close> as a lookup.\<close>

definition lookup2 :: "'f day_data \<Rightarrow> string \<Rightarrow> string \<Rightarrow> 'f entry option" where
  "lookup2 data date gid = (case map_of data date of None \<Rightarrow> None | Some day \<Rightarrow> map_of day gid)"

text \<open>
  The file between the two scripts: \<open>csv.DictReader\<close> reads back the six texts of a row
  that \<open>csv.writer\<close> wrote under the header of \<open>main\<close>.
\<close>

definition as_dict_row :: "clean_row \<Rightarrow> dict_row" where
  "as_dict_row r =
     \<lparr>col_Date = Some (Date r), col_GID_1 = Some (GID_1 r),
      col_Scheduled_outages = Some (Scheduled_outages r),
      col_Actual_outages = Some (Actual_outages r),
      col_Subqueues = Some (Subqueues r)\<rparr>"

subsection \<open>The colour function of the rendered document\<close>

text \<open>
  The values that the embedded script passes to \<open>getColor\<close>. A finite number is its
  exact rational value; \<open>Math.round\<close> gives the nearest integer, the larger one at a tie.
\<close>

datatype js_value = Null | Undefined | EmptyString | Number rat | NaN | Infinity | NegInfinity

fun math_round :: "js_value \<Rightarrow> js_value" where
  "math_round (Number r) = Number (of_int \<lfloor>r + 1 / 2\<rfloor>)"
| "math_round Null = Number 0"
| "math_round EmptyString = Number 0"
| "math_round Undefined = NaN"
| "math_round v = v"

fun js_le :: "js_value \<Rightarrow> rat \<Rightarrow> bool" where
  "js_le (Number r) n = (r \<le> n)"
| "js_le NegInfinity n = True"
| "js_le v n = False"

fun js_ge :: "js_value \<Rightarrow> rat \<Rightarrow> bool" where
  "js_ge (Number r) n = (r \<ge> n)"
| "js_ge Infinity n = True"
| "js_ge v n = False"

text \<open>\<open>palette\<close>: label and colour.\<close>

definition palette :: "(string \<times> string) list" where
  "palette = [(''0'', ''#2f9e44''), (''1-4'', ''#f2e86d''), (''5-8'', ''#f5c76b''),
              (''9-12'', ''#f19a6b''), (''13-16'', ''#e76b5a''), (''17-20'', ''#c7433c''),
              (''21-24'', ''#8f1d1d'')]"

definition color :: "string \<times> string \<Rightarrow> string" where
  "color p = snd p"

definition getColor :: "js_value \<Rightarrow> string" where
  "getColor v =
    (if v = Null \<or> v = Undefined \<or> v = EmptyString then ''#cfcfcf''
     else (let rounded = math_round v
           in if js_le rounded 0 then color (palette ! 0)
              else if js_ge rounded 1 \<and> js_le rounded 4 then color (palette ! 1)
              else if js_ge rounded 5 \<and> js_le rounded 8 then color (palette ! 2)
              else if js_ge rounded 9 \<and> js_le rounded 12 then color (palette ! 3)
              else if js_ge rounded 13 \<and> js_le rounded 16 then color (palette ! 4)
              else if js_ge rounded 17 \<and> js_le rounded 20 then color (palette ! 5)
              else color (palette ! 6)))"

text \<open>
  The legend drawn by \<open>addLegend\<close>: the palette, then the row \<open>No data\<close> (the row for
  occupied territory is a map layer, not a value of \<open>getColor\<close>).
\<close>

definition legend :: "(string \<times> string) list" where
  "legend = palette @ [(''No data'', ''#cfcfcf'')]"

section \<open>The properties, in the words of the specification\<close>

text \<open>
  The seven buckets of hours of the legend, each with its two inclusive bounds, and the
  label of the bucket an hour count lies in.
\<close>

definition spec_buckets :: "(string \<times> int \<times> int) list" where
  "spec_buckets = [(''0'', 0, 0), (''1-4'', 1, 4), (''5-8'', 5, 8), (''9-12'', 9, 12),
                   (''13-16'', 13, 16), (''17-20'', 17, 20), (''21-24'', 21, 24)]"

definition spec_bucket :: "int \<Rightarrow> string option" where
  "spec_bucket h =
     map_option fst (find (\<lambda>b. fst (snd b) \<le> h \<and> h \<le> snd (snd b)) spec_buckets)"

text \<open>
  A raw report row has a report date and a region name. It is retained when it has a
  region, its date parses and is not before the threshold; its group is keyed by the
  formatted date and the region name.
\<close>

definition report_date :: "raw_row \<Rightarrow> date option" where
  "report_date r = strptime (strip (or_empty (raw_date r)))"

definition report_region :: "raw_row \<Rightarrow> string" where
  "report_region r = strip (or_empty (raw_oblast r))"

definition retained :: "date \<Rightarrow> raw_row \<Rightarrow> bool" where
  "retained start_date r =
     (report_region r \<noteq> [] \<and> (case report_date r of None \<Rightarrow> False | Some d \<Rightarrow> start_date \<le> d))"

definition group_key :: "raw_row \<Rightarrow> (string \<times> string) option" where
  "group_key r = (case report_date r of None \<Rightarrow> None
     | Some d \<Rightarrow> Some (strftime d, report_region r))"

definition group_rows :: "date \<Rightarrow> raw_row list \<Rightarrow> string \<times> string \<Rightarrow> raw_row list" where
  "group_rows start_date rows k =
     filter (\<lambda>r. retained start_date r \<and> group_key r = Some k) rows"

text \<open>The valid dates found in the raw data, as written in the output.\<close>

definition valid_dates :: "date \<Rightarrow> raw_row list \<Rightarrow> string set" where
  "valid_dates start_date rows =
     set (map fst (List.map_filter group_key (filter (retained start_date) rows)))"

text \<open>The values of a column that are present and well-formed, in the order of the rows.\<close>

definition present_values ::
  "'f float_lib \<Rightarrow> (raw_row \<Rightarrow> string option) \<Rightarrow> raw_row list \<Rightarrow> 'f list" where
  "present_values L col rows = List.map_filter (\<lambda>r. parse_float L (col r)) rows"

text \<open>The sub-unit labels of a list of rows, added to a set of labels.\<close>

definition with_subqueues :: "string list \<Rightarrow> raw_row list \<Rightarrow> string list" where
  "with_subqueues qs rows =
     foldl (\<lambda>s r. (let q = strip (or_empty (raw_subqueue r))
                    in if q \<noteq> [] then List.insert q s else s)) qs rows"

definition cell_with :: "'f float_lib \<Rightarrow> 'f cell \<Rightarrow> raw_row list \<Rightarrow> 'f cell" where
  "cell_with L c rows =
     \<lparr>scheduled = scheduled c @ present_values L raw_scheduled rows,
      actual = actual c @ present_values L raw_actual rows,
      subqueues = with_subqueues (subqueues c) rows\<rparr>"

text \<open>
  A row contributes to an aggregate when its group has a cell there which holds the
  row's present values and its sub-unit label.
\<close>

definition contributes :: "'f float_lib \<Rightarrow> raw_row \<Rightarrow> 'f aggregated \<Rightarrow> bool" where
  "contributes L r data =
    (case group_key r of
       None \<Rightarrow> False
     | Some k \<Rightarrow>
        (case map_of data k of
           None \<Rightarrow> False
         | Some c \<Rightarrow>
            (case parse_float L (raw_scheduled r) of None \<Rightarrow> True | Some x \<Rightarrow> x \<in> set (scheduled c))
          \<and> (case parse_float L (raw_actual r) of None \<Rightarrow> True | Some x \<Rightarrow> x \<in> set (actual c))
          \<and> (strip (or_empty (raw_subqueue r)) = []
               \<or> strip (or_empty (raw_subqueue r)) \<in> set (subqueues c))))"

text \<open>A row whose region name is a key of the region mapping.\<close>

definition known_region :: "(string \<times> string) list \<Rightarrow> raw_row \<Rightarrow> bool" where
  "known_region region_ids r = (report_region r \<in> fst ` set region_ids)"

text \<open>
  The date string and the region identifier of a row of the clean dataset, the rows that
  the loader indexes (both are present), and the last row of a file with a given date
  string and identifier.
\<close>

definition row_date_text :: "dict_row \<Rightarrow> string" where
  "row_date_text r = strip (or_empty (col_Date r))"

definition row_gid :: "dict_row \<Rightarrow> string" where
  "row_gid r = strip (or_empty (col_GID_1 r))"

definition indexed :: "dict_row \<Rightarrow> bool" where
  "indexed r = (row_date_text r \<noteq> [] \<and> row_gid r \<noteq> [])"

definition last_row_for :: "dict_row list \<Rightarrow> string \<Rightarrow> string \<Rightarrow> dict_row option" where
  "last_row_for rows date gid =
     find (\<lambda>r. indexed r \<and> row_date_text r = date \<and> row_gid r = gid) (rev rows)"

text \<open>
  Decimal-comma or decimal-point notation: an optional sign, digits, and optionally a
  comma or a point followed by digits.
\<close>

definition spec_decimal :: "string \<Rightarrow> bool" where
  "spec_decimal s =
    (let u = strip_sign s;
         ip = takeWhile is_digit u;
         r = dropWhile is_digit u
     in ip \<noteq> [] \<and>
        (case r of [] \<Rightarrow> True
         | c # fp \<Rightarrow> (c = CHR ''.'' \<or> c = CHR '','') \<and> fp \<noteq> [] \<and> list_all is_digit fp))"

text \<open>
  The text that \<open>str\<close> writes for a float \<open>x\<close> reads back as \<open>x\<close>: it is made of the
  characters of Python's float texts (digits, point, \<open>e\<close>, signs, \<open>inf\<close>, \<open>nan\<close>),
  \<open>float()\<close> accepts it, and its value is equal (\<open>==\<close>) to \<open>x\<close>. Python guarantees
  this of \<open>str\<close> and \<open>float\<close> for every float but NaN, which is equal to no float.
\<close>

definition str_reads_back :: "'f float_lib \<Rightarrow> 'f \<Rightarrow> bool" where
  "str_reads_back L x =
     (list_all (\<lambda>c. c \<in> set ''0123456789.e+-infa'') (float_str L x)
      \<and> float_syntax (float_str L x)
      \<and> float_eq L (float_value L (float_str L x)) x)"

text \<open>
  A loaded value is numerically equal to the written average of a list of values: it is
  absent when the list is empty, and otherwise a number equal (\<open>==\<close>) to the mean.
\<close>

definition equals_average :: "'f float_lib \<Rightarrow> 'f option \<Rightarrow> 'f list \<Rightarrow> bool" where
  "equals_average L v xs =
     (case v of None \<Rightarrow> xs = [] | Some y \<Rightarrow> xs \<noteq> [] \<and> float_eq L y (mean L xs))"

section \<open>An instance of the number operations, and example inputs\<close>

text \<open>
  To run the model on examples the numbers are rationals: the value of a text is the
  value of the unsigned decimal numeral it starts with, the text of a whole number
  \<open>n\<close> is its digits followed by \<open>.0\<close>, and the mean is the sum divided by the
  count. The theorems hold for every instance; this one only serves the examples.
\<close>

definition nat_of_digits :: "string \<Rightarrow> nat" where
  "nat_of_digits s = foldl (\<lambda>n c. 10 * n + digit_val c) 0 s"

definition decimal_value :: "string \<Rightarrow> rat" where
  "decimal_value s =
    (let ip = takeWhile is_digit s;
         fp = takeWhile is_digit (drop 1 (dropWhile is_digit s))
     in of_nat (nat_of_digits ip) + of_nat (nat_of_digits fp) / 10 ^ length fp)"

definition show_rat :: "rat \<Rightarrow> string" where
  "show_rat x = (if 0 \<le> x \<and> of_int \<lfloor>x\<rfloor> = x then show_nat (nat \<lfloor>x\<rfloor>) @ ''.0'' else ''nan'')"

definition example_lib :: "rat float_lib" where
  "example_lib = \<lparr>float_value = decimal_value, float_str = show_rat,
                   mean = (\<lambda>xs. sum_list xs / of_nat (length xs)),
                   float_eq = (\<lambda>x y. x = y)\<rparr>"

text \<open>
  A second instance has one more number, NaN (here \<open>None\<close>): it is the value of the text
  \<open>nan\<close>, its text is \<open>nan\<close>, a mean over it is NaN, and it is equal to no number,
  itself included, as \<open>float('nan') == float('nan')\<close> is false in Python.
\<close>

definition nan_lib :: "rat option float_lib" where
  "nan_lib =
     \<lparr>float_value = (\<lambda>s. if ci_match (strip_sign (strip s)) ''nan'' then None
                          else Some (decimal_value s)),
      float_str = (\<lambda>x. case x of None \<Rightarrow> ''nan'' | Some q \<Rightarrow> show_rat q),
      mean = (\<lambda>xs. if None \<in> set xs then None
                    else Some (sum_list (map the xs) / of_nat (length xs))),
      float_eq = (\<lambda>x y. x \<noteq> None \<and> x = y)\<rparr>"

definition example_regions :: "region_row list" where
  "example_regions =
     [\<lparr>region_oblast = Some ''Lviv'', region_gid = Some ''UA-46''\<rparr>,
      \<lparr>region_oblast = Some ''Kyiv'', region_gid = Some ''UA-30''\<rparr>]"

definition raw :: "string \<Rightarrow> string \<Rightarrow> string \<Rightarrow> string \<Rightarrow> string \<Rightarrow> raw_row" where
  "raw d ob q s a = \<lparr>raw_date = Some d, raw_oblast = Some ob, raw_subqueue = Some q,
                     raw_scheduled = Some s, raw_actual = Some a\<rparr>"

definition example_rows :: "raw_row list" where
  "example_rows =
     [raw ''01.03.2026'' ''Kyiv'' ''B'' ''4'' '''',
      raw ''02.02.2026'' ''Lviv'' '''' ''2'' ''3'',
      raw ''01.03.2026'' ''Kyiv'' ''A'' ''6'' ''n/a'',
      raw ''15.01.2026'' ''Kyiv'' ''A'' ''8'' ''8'']"

definition clean :: "string \<Rightarrow> string \<Rightarrow> string \<Rightarrow> string \<Rightarrow> string \<Rightarrow> dict_row" where
  "clean d g s a q = \<lparr>col_Date = Some d, col_GID_1 = Some g, col_Scheduled_outages = Some s,
                       col_Actual_outages = Some a, col_Subqueues = Some q\<rparr>"

section \<open>Notions used in the proofs\<close>

text \<open>The four digits of a year from 1000 on.\<close>

definition pad4 :: "nat \<Rightarrow> string" where
  "pad4 n = [digit_char (n div 1000), digit_char (n div 100 mod 10),
             digit_char (n div 10 mod 10), digit_char (n mod 10)]"

text \<open>
  The dates of the output in the order \<open>main\<close> gives them when every date string of
  the aggregate parses, which is proved below.
\<close>

definition out_dates :: "'f float_lib \<Rightarrow> date \<Rightarrow> raw_row list \<Rightarrow> string list" where
  "out_dates L sd rows =
     sort_key (\<lambda>d. the (strptime d)) (date_strings_of (load_raw_data L sd rows))"

text \<open>
  The invariant of the loop of \<open>load_region_ids\<close>: the names are distinct and not
  empty, and names and identifiers are stripped.
\<close>

definition stripped_mapping :: "(string \<times> string) list \<Rightarrow> bool" where
  "stripped_mapping m =
     (distinct (map fst m) \<and> (\<forall>p \<in> set m. fst p \<noteq> [] \<and> strip (fst p) = fst p \<and> strip (snd p) = snd p))"

section \<open>Lemmas\<close>

subsection \<open>Parsing and formatting dates\<close>

lemma of_char_digit_char: "n < 10 \<Longrightarrow> (of_char (digit_char n) :: nat) = 48 + n"
  by (simp add: digit_char_def)

lemma digit_char_eq:
  assumes "n < 10" "(of_char c :: nat) = 48 + k"
  shows "digit_char n = c \<longleftrightarrow> n = k"
proof
  assume "digit_char n = c"
  then have "(of_char (digit_char n) :: nat) = of_char c" by simp
  then show "n = k" using assms of_char_digit_char[OF assms(1)] by simp
next
  assume "n = k"
  then have "(of_char (digit_char n) :: nat) = of_char c"
    using assms of_char_digit_char[OF assms(1)] by simp
  then show "digit_char n = c" by (simp only: of_char_eq_iff)
qed

lemma digit_char_neq:
  assumes "n < 10" "(of_char c :: nat) < 48"
  shows "digit_char n \<noteq> c"
proof
  assume "digit_char n = c"
  then have "(of_char (digit_char n) :: nat) = of_char c" by simp
  then show False using assms of_char_digit_char[OF assms(1)] by simp
qed

lemma digit_char_simps:
  assumes "n < 10"
  shows "is_digit (digit_char n)" "digit_val (digit_char n) = n"
    "is_nonzero_digit (digit_char n) \<longleftrightarrow> 0 < n"
    "digit_char n \<noteq> CHR ''.''" "digit_char n \<noteq> CHR '' ''"
    "digit_char n = CHR ''0'' \<longleftrightarrow> n = 0"
    "digit_char n = CHR ''1'' \<longleftrightarrow> n = 1"
    "digit_char n = CHR ''2'' \<longleftrightarrow> n = 2"
    "digit_char n = CHR ''3'' \<longleftrightarrow> n = 3"
proof -
  note oc = of_char_digit_char[OF assms]
  show "is_digit (digit_char n)" using oc assms by (simp add: is_digit_def)
  show "digit_val (digit_char n) = n" using oc by (simp add: digit_val_def)
  show "is_nonzero_digit (digit_char n) \<longleftrightarrow> 0 < n" using oc assms
    by (auto simp add: is_nonzero_digit_def)
  show "digit_char n \<noteq> CHR ''.''" by (rule digit_char_neq[OF assms]) simp
  show "digit_char n \<noteq> CHR '' ''" by (rule digit_char_neq[OF assms]) simp
  show "digit_char n = CHR ''0'' \<longleftrightarrow> n = 0" using digit_char_eq[OF assms, of "CHR ''0''" 0] by simp
  show "digit_char n = CHR ''1'' \<longleftrightarrow> n = 1" using digit_char_eq[OF assms, of "CHR ''1''" 1] by simp
  show "digit_char n = CHR ''2'' \<longleftrightarrow> n = 2" using digit_char_eq[OF assms, of "CHR ''2''" 2] by simp
  show "digit_char n = CHR ''3'' \<longleftrightarrow> n = 3" using digit_char_eq[OF assms, of "CHR ''3''" 3] by simp
qed


lemma day_alts_pad2:
  assumes "1 \<le> d" "d \<le> 31"
  shows "\<exists>alts. day_alts (pad2 d @ r) = (d, r) # alts"
proof -
  have a: "d div 10 < 10" "d mod 10 < 10" using assms by auto
  have b: "d div 10 = 0 \<or> d div 10 = 1 \<or> d div 10 = 2 \<or> d div 10 = 3" using assms by auto
  have c: "d div 10 = 3 \<Longrightarrow> d mod 10 = 0 \<or> d mod 10 = 1" using assms by presburger
  have e: "d div 10 = 0 \<Longrightarrow> 0 < d mod 10" using assms by auto
  have f: "10 * (d div 10) + d mod 10 = d" by simp
  from b show ?thesis
  proof (elim disjE)
    assume h: "d div 10 = 0"
    with e have "0 < d mod 10" by simp
    moreover have "d mod 10 = d" using h f by simp
    ultimately show ?thesis using h a
      by (simp add: day_alts_def pad2_def digit_char_simps)
  next
    assume h: "d div 10 = 1"
    then have "10 + d mod 10 = d" using f by simp
    then show ?thesis using h a
      by (simp add: day_alts_def pad2_def digit_char_simps)
  next
    assume h: "d div 10 = 2"
    then have "20 + d mod 10 = d" using f by simp
    then show ?thesis using h a
      by (simp add: day_alts_def pad2_def digit_char_simps)
  next
    assume h: "d div 10 = 3"
    then have "30 + d mod 10 = d" using f by simp
    then show ?thesis using h a c[OF h]
      by (auto simp add: day_alts_def pad2_def digit_char_simps)
  qed
qed


lemma month_alts_pad2:
  assumes "1 \<le> m" "m \<le> 12"
  shows "\<exists>alts. month_alts (pad2 m @ r) = (m, r) # alts"
proof -
  have a: "m div 10 < 10" "m mod 10 < 10" using assms by auto
  have b: "m div 10 = 0 \<or> m div 10 = 1" using assms by presburger
  have c: "m div 10 = 1 \<Longrightarrow> m mod 10 = 0 \<or> m mod 10 = 1 \<or> m mod 10 = 2"
    using assms by presburger
  have e: "m div 10 = 0 \<Longrightarrow> 0 < m mod 10" using assms by presburger
  have f: "10 * (m div 10) + m mod 10 = m" by simp
  from b show ?thesis
  proof (elim disjE)
    assume h: "m div 10 = 0"
    with e have "0 < m mod 10" by simp
    moreover have "m mod 10 = m" using h f by simp
    ultimately show ?thesis using h a
      by (simp add: month_alts_def pad2_def digit_char_simps)
  next
    assume h: "m div 10 = 1"
    then have "10 + m mod 10 = m" using f by simp
    then show ?thesis using h a c[OF h]
      by (auto simp add: month_alts_def pad2_def digit_char_simps)
  qed
qed

lemma digits4:
  fixes y :: nat
  shows "1000 * (y div 1000) + 100 * (y div 100 mod 10) + 10 * (y div 10 mod 10) + y mod 10 = y"
proof -
  have e1: "10 * (y div 10) + y mod 10 = y" by simp
  have e2: "10 * (y div 100) + y div 10 mod 10 = y div 10"
    using mult_div_mod_eq[of 10 "y div 10"] by (simp add: div_mult2_eq[symmetric])
  have e3: "10 * (y div 1000) + y div 100 mod 10 = y div 100"
    using mult_div_mod_eq[of 10 "y div 100"] by (simp add: div_mult2_eq[symmetric])
  from e1 e2 e3 show ?thesis by linarith
qed

lemma match_year_pad4:
  assumes "y \<le> 9999"
  shows "match_year (pad4 y @ r) = Some (y, r)"
proof -
  have "y < 10 * 1000" using assms by simp
  then have a1: "y div 1000 < 10" by (rule less_mult_imp_div_less)
  have a: "y div 100 mod 10 < 10" "y div 10 mod 10 < 10" "y mod 10 < 10"
    by simp_all
  show ?thesis using a a1 digits4[of y]
    by (simp add: match_year_def pad4_def digit_char_simps)
qed

lemma show_nat_pad4:
  assumes "1000 \<le> y" "y \<le> 9999"
  shows "show_nat y = pad4 y"
proof -
  have "y < 10 * 1000" using assms by simp
  then have a1: "y div 1000 < 10" by (rule less_mult_imp_div_less)
  have "1000 div 100 \<le> y div 100" using assms(1) by (rule div_le_mono)
  then have a2: "\<not> y div 100 < 10" by simp
  have "1000 div 10 \<le> y div 10" using assms(1) by (rule div_le_mono)
  then have a3: "\<not> y div 10 < 10" by simp
  have a4: "\<not> y < 10" using assms(1) by simp
  have d2: "y div 10 div 10 = y div 100" by (simp add: div_mult2_eq[symmetric])
  have d3: "y div 100 div 10 = y div 1000" by (simp add: div_mult2_eq[symmetric])
  have e4: "show_nat (y div 1000) = [digit_char (y div 1000)]"
    using a1 by (subst show_nat.simps) simp
  have e3: "show_nat (y div 100) = show_nat (y div 1000) @ [digit_char (y div 100 mod 10)]"
    using a2 by (subst show_nat.simps) (simp add: d3)
  have e2: "show_nat (y div 10) = show_nat (y div 100) @ [digit_char (y div 10 mod 10)]"
    using a3 by (subst show_nat.simps) (simp add: d2)
  have e1: "show_nat y = show_nat (y div 10) @ [digit_char (y mod 10)]"
    using a4 by (subst show_nat.simps) simp
  show ?thesis by (simp add: e1 e2 e3 e4 pad4_def)
qed

lemma nat_of_digits_snoc: "nat_of_digits (xs @ [c]) = 10 * nat_of_digits xs + digit_val c"
  by (simp add: nat_of_digits_def)

lemma nat_of_digits_show_nat: "nat_of_digits (show_nat n) = n"
proof (induction n rule: show_nat.induct)
  case (1 n)
  show ?case
  proof (cases "n < 10")
    case True
    then have "show_nat n = [digit_char n]" by (subst show_nat.simps) simp
    then show ?thesis using True by (simp add: nat_of_digits_def digit_char_simps)
  next
    case False
    then have e: "show_nat n = show_nat (n div 10) @ [digit_char (n mod 10)]"
      by (subst show_nat.simps) simp
    have "n mod 10 < 10" by simp
    then have "digit_val (digit_char (n mod 10)) = n mod 10" by (rule digit_char_simps)
    then show ?thesis using 1[OF False] by (simp add: e nat_of_digits_snoc)
  qed
qed

lemma show_nat_inj:
  assumes "show_nat a = show_nat b"
  shows "a = b"
proof -
  have "a = nat_of_digits (show_nat a)" by (simp only: nat_of_digits_show_nat)
  also have "\<dots> = nat_of_digits (show_nat b)" by (simp only: assms)
  also have "\<dots> = b" by (rule nat_of_digits_show_nat)
  finally show ?thesis .
qed

lemma show_nat_last: "show_nat n \<noteq> [] \<and> last (show_nat n) = digit_char (n mod 10)"
  by (subst (1 2) show_nat.simps) simp

lemma strptime_strftime:
  assumes "valid_date dt" "1000 \<le> fst dt"
  shows "strptime (strftime dt) = Some dt"
proof -
  obtain y m d where dt: "dt = (y, m, d)" by (cases dt) auto
  from assms dt have v: "1 \<le> y" "y \<le> 9999" "1 \<le> m" "m \<le> 12" "1 \<le> d" "d \<le> days_in_month y m"
    by (auto simp: valid_date_def)
  from assms(2) dt have y: "1000 \<le> y" by simp
  have sf: "strftime dt = pad2 d @ ''.'' @ pad2 m @ ''.'' @ pad4 y"
    by (simp add: strftime_def dt show_nat_pad4[OF y v(2)])
  have "days_in_month y m \<le> 31" by (simp add: days_in_month_def)
  with v have d31: "d \<le> 31" by simp
  obtain a1 where a1: "day_alts (pad2 d @ ''.'' @ pad2 m @ ''.'' @ pad4 y) = (d, ''.'' @ pad2 m @ ''.'' @ pad4 y) # a1"
    using day_alts_pad2[OF v(5) d31] by blast
  obtain a2 where a2: "month_alts (pad2 m @ ''.'' @ pad4 y) = (m, ''.'' @ pad4 y) # a2"
    using month_alts_pad2[OF v(3,4)] by blast
  have my: "match_year (pad4 y) = Some (y, [])"
    using match_year_pad4[OF v(2), of "[]"] by simp
  have mm: "match_month_year (pad2 m @ ''.'' @ pad4 y) = Some (m, y, [])"
    using a2 my by (simp add: match_month_year_def match_dot_def)
  have "regex_match (strftime dt) = Some (d, m, y, [])"
    unfolding sf using a1 mm by (simp add: regex_match_def match_dot_def)
  then show ?thesis using assms(1) dt by (simp add: strptime_def)
qed

lemma strptime_valid: "strptime s = Some dt \<Longrightarrow> valid_date dt"
  by (auto simp: strptime_def split: option.splits if_splits)

lemma digit_char_inj:
  assumes "a < 10" "b < 10" "digit_char a = digit_char b"
  shows "a = b"
proof -
  have "48 + a = (of_char (digit_char a) :: nat)" by (simp only: of_char_digit_char[OF assms(1)])
  also have "\<dots> = of_char (digit_char b)" by (simp only: assms(3))
  also have "\<dots> = 48 + b" by (rule of_char_digit_char[OF assms(2)])
  finally show ?thesis by simp
qed

lemma pad2_inj:
  assumes "a < 100" "b < 100" "pad2 a = pad2 b"
  shows "a = b"
proof -
  have "a < 10 * 10" "b < 10 * 10" using assms by simp_all
  then have l: "a div 10 < 10" "b div 10 < 10" by (simp_all add: less_mult_imp_div_less)
  have m: "a mod 10 < 10" "b mod 10 < 10" by simp_all
  from assms(3) have "digit_char (a div 10) = digit_char (b div 10)"
    "digit_char (a mod 10) = digit_char (b mod 10)" by (simp_all add: pad2_def)
  then have "a div 10 = b div 10" "a mod 10 = b mod 10"
    using digit_char_inj[OF l] digit_char_inj[OF m] by simp_all
  then show ?thesis by (metis mult_div_mod_eq)
qed

lemma strftime_inj:
  assumes "valid_date a" "valid_date b" "strftime a = strftime b"
  shows "a = b"
proof -
  obtain y m d where a: "a = (y, m, d)" by (cases a) auto
  obtain y' m' d' where b: "b = (y', m', d')" by (cases b) auto
  have "days_in_month y m \<le> 31" "days_in_month y' m' \<le> 31" by (simp_all add: days_in_month_def)
  with assms(1,2) a b have r: "d < 100" "d' < 100" "m < 100" "m' < 100"
    by (auto simp: valid_date_def)
  from assms(3) have "pad2 d @ ''.'' @ pad2 m @ ''.'' @ show_nat y =
      pad2 d' @ ''.'' @ pad2 m' @ ''.'' @ show_nat y'"
    by (simp add: strftime_def a b)
  then have "pad2 d = pad2 d'" "pad2 m = pad2 m'" "show_nat y = show_nat y'"
    by (simp_all add: pad2_def)
  then show ?thesis
    using pad2_inj[OF r(1,2)] pad2_inj[OF r(3,4)] show_nat_inj by (simp add: a b)
qed

subsection \<open>The aggregation loop\<close>

lemma strptime_Nil: "strptime [] = None"
  by (simp add: strptime_def regex_match_def day_alts_def)

lemma row_key_eq: "row_key sd r = (if retained sd r then group_key r else None)"
  by (auto simp: row_key_def retained_def group_key_def report_date_def report_region_def
      strptime_Nil Let_def split: option.splits)

lemma group_key_valid:
  assumes "group_key r = Some k"
  shows "\<exists>d. report_date r = Some d \<and> valid_date d \<and> k = (strftime d, report_region r)"
  using assms strptime_valid
  by (auto simp: group_key_def report_date_def split: option.splits)

lemma cell_with_Nil: "cell_with L c [] = c"
  by (simp add: cell_with_def present_values_def with_subqueues_def List.map_filter_simps)

lemma present_values_append:
  "present_values L col (xs @ ys) = present_values L col xs @ present_values L col ys"
  by (simp add: present_values_def List.map_filter_def)

lemma present_values_single:
  "present_values L col [r] = (case parse_float L (col r) of None \<Rightarrow> [] | Some x \<Rightarrow> [x])"
  by (simp add: present_values_def List.map_filter_simps split: option.splits)

lemma cell_with_snoc:
  "cell_with L c (rs @ [r]) =
     (let c' = cell_with L c rs; q = strip (or_empty (raw_subqueue r))
      in \<lparr>scheduled = scheduled c' @ (case parse_float L (raw_scheduled r) of None \<Rightarrow> [] | Some x \<Rightarrow> [x]),
          actual = actual c' @ (case parse_float L (raw_actual r) of None \<Rightarrow> [] | Some x \<Rightarrow> [x]),
          subqueues = (if q \<noteq> [] then List.insert q (subqueues c') else subqueues c')\<rparr>)"
  by (simp add: cell_with_def present_values_append present_values_single with_subqueues_def Let_def)

lemma map_of_setdefault:
  "map_of (setdefault k v xs) k' =
     (if k' = k then Some (case map_of xs k of None \<Rightarrow> v | Some w \<Rightarrow> w) else map_of xs k')"
  by (auto simp: setdefault_def update_conv' split: option.splits)

lemma map_of_add_row:
  "map_of (add_row L sd data row) k =
     (if row_key sd row = Some k
      then Some (cell_with L (case map_of data k of None \<Rightarrow> empty_cell | Some c \<Rightarrow> c) [row])
      else map_of data k)"
proof (cases "row_key sd row")
  case None
  then show ?thesis by (simp add: add_row_def)
next
  case (Some key)
  show ?thesis
  proof (cases "k = key")
    case False
    then show ?thesis using Some
      by (auto simp: add_row_def Let_def map_of_map_entry map_of_setdefault split: option.splits)
  next
    case True
    then show ?thesis using Some
      by (auto simp: add_row_def Let_def map_of_map_entry map_of_setdefault cell_with_def
          present_values_single with_subqueues_def split: option.splits)
  qed
qed

lemma cell_with_append: "cell_with L c (xs @ ys) = cell_with L (cell_with L c xs) ys"
  by (simp add: cell_with_def present_values_append with_subqueues_def)

lemma group_rows_snoc:
  "group_rows sd (rows @ [r]) k =
     group_rows sd rows k @ (if row_key sd r = Some k then [r] else [])"
  by (auto simp: group_rows_def row_key_eq)

lemma map_of_foldl_add_row:
  "map_of (foldl (add_row L sd) data rows) k =
     (if group_rows sd rows k = [] then map_of data k
      else Some (cell_with L (case map_of data k of None \<Rightarrow> empty_cell | Some c \<Rightarrow> c)
                   (group_rows sd rows k)))"
proof (induction rows rule: rev_induct)
  case Nil
  then show ?case by (simp add: group_rows_def)
next
  case (snoc r rows)
  show ?case
  proof (cases "row_key sd r = Some k")
    case False
    then show ?thesis using snoc by (simp add: map_of_add_row group_rows_snoc)
  next
    case True
    then show ?thesis using snoc
      by (simp add: map_of_add_row group_rows_snoc cell_with_append cell_with_Nil)
  qed
qed

lemma map_of_load_raw_data:
  "map_of (load_raw_data L sd rows) k =
     (if group_rows sd rows k = [] then None
      else Some (cell_with L empty_cell (group_rows sd rows k)))"
  by (simp add: load_raw_data_def map_of_foldl_add_row)

lemma values_load_raw_data:
  "(case map_of (load_raw_data L sd rows) k of None \<Rightarrow> empty_cell | Some c \<Rightarrow> c) =
     cell_with L empty_cell (group_rows sd rows k)"
  by (simp add: map_of_load_raw_data cell_with_Nil)

lemma keys_load_raw_data:
  "fst ` set (load_raw_data L sd rows) = {k. group_rows sd rows k \<noteq> []}"
proof -
  have "fst ` set (load_raw_data L sd rows) = dom (map_of (load_raw_data L sd rows))"
    by (simp add: dom_map_of_conv_image_fst)
  also have "\<dots> = {k. group_rows sd rows k \<noteq> []}"
    by (auto simp: dom_def map_of_load_raw_data)
  finally show ?thesis .
qed

subsection \<open>Stripping\<close>

lemma last_dropWhile: "dropWhile P xs \<noteq> [] \<Longrightarrow> last (dropWhile P xs) = last xs"
  by (metis last_appendR takeWhile_dropWhile_id)

lemma strip_id:
  assumes "s = [] \<or> (\<not> is_space (hd s) \<and> \<not> is_space (last s))"
  shows "strip s = s"
proof (cases "s = []")
  case True
  then show ?thesis by (simp add: strip_def)
next
  case False
  with assms have h: "\<not> is_space (hd s)" "\<not> is_space (last s)" by auto
  have a: "dropWhile is_space s = s" using False h(1) by (cases s) auto
  have hl: "hd (rev s) = last s" using False by (simp add: hd_rev)
  have b: "dropWhile is_space (rev s) = rev s"
  proof (cases "rev s")
    case Nil
    then show ?thesis by simp
  next
    case (Cons a as)
    then have "a = last s" using hl by simp
    then have "dropWhile is_space (a # as) = a # as" using h(2) by simp
    then show ?thesis by (simp only: Cons)
  qed
  show ?thesis by (simp add: strip_def a b)
qed

lemma strip_ends:
  "strip s = [] \<or> (\<not> is_space (hd (strip s)) \<and> \<not> is_space (last (strip s)))"
proof (cases "strip s = []")
  case True
  then show ?thesis by simp
next
  case False
  define u where "u = dropWhile is_space s"
  define v where "v = dropWhile is_space (rev u)"
  have t: "strip s = rev v" by (simp add: strip_def u_def v_def)
  with False have v: "v \<noteq> []" by simp
  then have u: "u \<noteq> []" by (auto simp: v_def)
  have "\<not> is_space (hd v)" using v unfolding v_def by (rule hd_dropWhile)
  then have l: "\<not> is_space (last (strip s))" using v by (simp add: t last_rev)
  have "last v = last (rev u)" using v unfolding v_def by (rule last_dropWhile)
  then have "last v = hd u" using u by (simp add: last_rev)
  moreover have "\<not> is_space (hd u)" using u unfolding u_def by (rule hd_dropWhile)
  ultimately have "\<not> is_space (hd (strip s))" using v by (simp add: t hd_rev)
  with l show ?thesis by simp
qed

lemma strip_strip: "strip (strip s) = strip s"
  using strip_ends[of s] by (rule strip_id)

lemma not_space_digit_char: "n < 10 \<Longrightarrow> \<not> is_space (digit_char n)"
  using of_char_digit_char[of n] by (simp add: is_space_def)

lemma strip_strftime:
  assumes "valid_date dt"
  shows "strip (strftime dt) = strftime dt"
proof -
  obtain y m d where dt: "dt = (y, m, d)" by (cases dt) auto
  from assms dt have v: "d \<le> days_in_month y m" by (auto simp: valid_date_def)
  have "days_in_month y m \<le> 31" by (simp add: days_in_month_def)
  with v have "d < 10 * 10" by simp
  then have "d div 10 < 10" by (rule less_mult_imp_div_less)
  then have "\<not> is_space (hd (strftime dt))"
    by (simp add: strftime_def dt pad2_def not_space_digit_char)
  moreover have "\<not> is_space (last (strftime dt))"
    using show_nat_last[of y] by (simp add: strftime_def dt not_space_digit_char)
  ultimately show ?thesis by (intro strip_id) simp
qed

lemma strftime_not_Nil: "strftime dt \<noteq> []"
  by (cases dt) (simp add: strftime_def pad2_def)

subsection \<open>The region mapping\<close>

lemma set_update_subset: "set (AList.update k v al) \<subseteq> insert (k, v) (set al)"
  by (induct al) auto

lemma stripped_mapping_update:
  assumes "stripped_mapping m" "k \<noteq> []" "strip k = k" "strip v = v"
  shows "stripped_mapping (AList.update k v m)"
  using assms set_update_subset[of k v m]
  unfolding stripped_mapping_def by (auto simp: distinct_update)

lemma load_region_ids_loop_stripped:
  "stripped_mapping m \<Longrightarrow> load_region_ids_loop m rows = Inr ids \<Longrightarrow> stripped_mapping ids"
proof (induction rows arbitrary: m)
  case Nil
  then show ?case by simp
next
  case (Cons row rows)
  from Cons.prems(2) obtain o_raw g_raw where
    f: "region_oblast row = Some o_raw" "region_gid row = Some g_raw"
    by (auto split: option.splits)
  let ?m' = "if strip o_raw \<noteq> [] then AList.update (strip o_raw) (strip g_raw) m else m"
  have "stripped_mapping ?m'"
    using Cons.prems(1) by (simp add: stripped_mapping_update strip_strip)
  moreover have "load_region_ids_loop ?m' rows = Inr ids"
    using Cons.prems(2) f by (simp add: Let_def)
  ultimately show ?case by (rule Cons.IH)
qed

lemma load_region_ids_stripped:
  "load_region_ids rows = Inr ids \<Longrightarrow> stripped_mapping ids"
  unfolding load_region_ids_def
  by (rule load_region_ids_loop_stripped[of "[]"]) (simp_all add: stripped_mapping_def)

subsection \<open>The dates of the output and their order\<close>

lemma set_map_filter_conv:
  "set (List.map_filter f xs) = {y. \<exists>x \<in> set xs. f x = Some y}"
  by (induction xs) (auto simp: List.map_filter_simps split: option.splits)

lemma valid_dates_iff:
  "ds \<in> valid_dates sd rows \<longleftrightarrow>
     (\<exists>r \<in> set rows. \<exists>k. retained sd r \<and> group_key r = Some k \<and> fst k = ds)"
  by (force simp: valid_dates_def set_map_filter_conv image_iff)

lemma group_rows_nonempty_iff:
  "group_rows sd rows k \<noteq> [] \<longleftrightarrow> (\<exists>r \<in> set rows. retained sd r \<and> group_key r = Some k)"
  by (auto simp: group_rows_def filter_empty_conv)

lemma set_date_strings_of:
  "set (date_strings_of (load_raw_data L sd rows)) = valid_dates sd rows"
proof -
  have "set (date_strings_of (load_raw_data L sd rows)) =
          fst ` fst ` set (load_raw_data L sd rows)"
    by (simp add: date_strings_of_def image_image)
  also have "\<dots> = fst ` {k. group_rows sd rows k \<noteq> []}"
    by (simp add: keys_load_raw_data)
  also have "\<dots> = valid_dates sd rows"
    by (force simp: valid_dates_iff group_rows_nonempty_iff image_iff)
  finally show ?thesis .
qed

lemma distinct_date_strings_of: "distinct (date_strings_of a)"
  by (simp add: date_strings_of_def)

lemma valid_dates_strftime:
  assumes "ds \<in> valid_dates sd rows"
  shows "\<exists>dt. ds = strftime dt \<and> valid_date dt \<and> sd \<le> dt"
proof -
  from assms obtain r k where r: "retained sd r" "group_key r = Some k" "fst k = ds"
    by (auto simp: valid_dates_iff)
  from group_key_valid[OF r(2)] obtain dt where
    dt: "report_date r = Some dt" "valid_date dt" "k = (strftime dt, report_region r)" by blast
  have "sd \<le> dt" using r(1) dt(1) by (simp add: retained_def)
  moreover have "ds = strftime dt" using dt(3) r(3) by simp
  ultimately show ?thesis using dt(2) by blast
qed

lemma fst_le_of_prod_le:
  fixes a b :: "'a::linorder \<times> 'b::linorder"
  shows "a \<le> b \<Longrightarrow> fst a \<le> fst b"
  by (auto simp: less_eq_prod_def)

lemma valid_dates_parse:
  assumes "ds \<in> valid_dates sd rows" "1000 \<le> fst sd"
  shows "\<exists>dt. strptime ds = Some dt \<and> ds = strftime dt \<and> valid_date dt \<and> sd \<le> dt"
proof -
  from valid_dates_strftime[OF assms(1)] obtain dt where
    dt: "ds = strftime dt" "valid_date dt" "sd \<le> dt" by blast
  have "fst sd \<le> fst dt" using dt(3) by (rule fst_le_of_prod_le)
  with assms(2) have "1000 \<le> fst dt" by simp
  from strptime_strftime[OF dt(2) this] dt show ?thesis by blast
qed

lemma those_map_Some:
  "(\<forall>x \<in> set xs. f x \<noteq> None) \<Longrightarrow> those (map f xs) = Some (map (\<lambda>x. the (f x)) xs)"
  by (induction xs) auto

lemma those_map_None:
  "x \<in> set xs \<Longrightarrow> f x = None \<Longrightarrow> those (map f xs) = None"
  by (induction xs) (auto split: option.splits)

lemma insort_key_map:
  "insort_key f (g x) (map g ys) = map g (insort_key (\<lambda>y. f (g y)) x ys)"
  by (induction ys) auto

lemma sort_key_map: "sort_key f (map g xs) = map g (sort_key (\<lambda>y. f (g y)) xs)"
  by (induction xs) (auto simp: insort_key_map)

lemma sort_key_zip: "map snd (sort_key fst (zip (map f xs) xs)) = sort_key f xs"
proof -
  have "zip (map f xs) xs = map (\<lambda>x. (f x, x)) xs" by (induction xs) auto
  then show ?thesis by (simp add: sort_key_map comp_def)
qed

lemma sorted_by_date_eq:
  assumes "\<forall>d \<in> set ds. strptime d \<noteq> None"
  shows "sorted_by_date ds = Inr (sort_key (\<lambda>d. the (strptime d)) ds)"
  using those_map_Some[OF assms] sort_key_zip[of "\<lambda>d. the (strptime d)" ds]
  by (simp add: sorted_by_date_def)

lemma main_eq:
  assumes "strptime start_arg = Some sd" "load_region_ids region_rows = Inr ids"
    and "1000 \<le> fst sd"
  shows "main L start_arg region_rows rows =
           Inr (write_rows L ids (load_raw_data L sd rows) (out_dates L sd rows)
                  (sort (map fst ids)))"
proof -
  have "\<forall>d \<in> set (date_strings_of (load_raw_data L sd rows)). strptime d \<noteq> None"
  proof
    fix d assume "d \<in> set (date_strings_of (load_raw_data L sd rows))"
    then have "d \<in> valid_dates sd rows" by (simp add: set_date_strings_of)
    from valid_dates_parse[OF this assms(3)] show "strptime d \<noteq> None" by auto
  qed
  from sorted_by_date_eq[OF this] show ?thesis
    using assms(1,2) by (simp add: main_def Let_def out_dates_def)
qed

lemma set_out_dates: "set (out_dates L sd rows) = valid_dates sd rows"
  by (simp add: out_dates_def set_date_strings_of)

lemma distinct_out_dates: "distinct (out_dates L sd rows)"
  by (simp add: out_dates_def distinct_date_strings_of)

lemma sorted_out_dates: "sorted (map (\<lambda>d. the (strptime d)) (out_dates L sd rows))"
  by (simp add: out_dates_def)


lemma write_rows_Cons:
  "write_rows L ids a (d # dates) oblasts =
     map (output_row L ids a d) oblasts @ write_rows L ids a dates oblasts"
  by (simp add: write_rows_def)

lemma set_write_rows:
  "set (write_rows L ids a dates oblasts) =
     {output_row L ids a d ob | d ob. d \<in> set dates \<and> ob \<in> set oblasts}"
  by (auto simp: write_rows_def)

subsection \<open>The rows written\<close>

lemma output_row_fields:
  "Date (output_row L ids a d ob) = d"
  "Oblast (output_row L ids a d ob) = ob"
  "GID_1 (output_row L ids a d ob) = (case map_of ids ob of None \<Rightarrow> [] | Some g \<Rightarrow> g)"
  by (simp_all add: output_row_def Let_def)

lemma output_row_cells:
  "Scheduled_outages (output_row L ids (load_raw_data L sd rows) d ob) =
     avg_text L (present_values L raw_scheduled (group_rows sd rows (d, ob)))"
  "Actual_outages (output_row L ids (load_raw_data L sd rows) d ob) =
     avg_text L (present_values L raw_actual (group_rows sd rows (d, ob)))"
  "Subqueues (output_row L ids (load_raw_data L sd rows) d ob) =
     join '', '' (sort (with_subqueues [] (group_rows sd rows (d, ob))))"
  unfolding output_row_def Let_def values_load_raw_data
  by (simp_all add: cell_with_def empty_cell_def)

lemma present_values_Nil: "present_values L col [] = []"
  by (simp add: present_values_def)

lemma with_subqueues_Nil: "with_subqueues qs [] = qs"
  by (simp add: with_subqueues_def)



lemma example_start: "strptime ''31.01.2026'' = Some (2026, 1, 31)"
  by code_simp

lemma example_year: "1000 \<le> fst ((2026, 1, 31) :: date)"
  by simp

lemma example_region_ids:
  "load_region_ids example_regions = Inr [(''Lviv'', ''UA-46''), (''Kyiv'', ''UA-30'')]"
  by code_simp

lemma example_main:
  "main example_lib ''31.01.2026'' example_regions example_rows =
     Inr [\<lparr>Date = ''02.02.2026'', Oblast = ''Kyiv'', GID_1 = ''UA-30'',
            Scheduled_outages = [], Actual_outages = [], Subqueues = []\<rparr>,
          \<lparr>Date = ''02.02.2026'', Oblast = ''Lviv'', GID_1 = ''UA-46'',
            Scheduled_outages = ''2.0'', Actual_outages = ''3.0'', Subqueues = []\<rparr>,
          \<lparr>Date = ''01.03.2026'', Oblast = ''Kyiv'', GID_1 = ''UA-30'',
            Scheduled_outages = ''5.0'', Actual_outages = [], Subqueues = ''A, B''\<rparr>,
          \<lparr>Date = ''01.03.2026'', Oblast = ''Lviv'', GID_1 = ''UA-46'',
            Scheduled_outages = [], Actual_outages = [], Subqueues = []\<rparr>]"
  by code_simp

subsection \<open>Texts that are no number\<close>

lemma float_syntax_Nil: "\<not> float_syntax []"
  by (simp add: float_syntax_def strip_def strip_sign_def ci_match_def floatnumber_def)

lemma parse_float_maps_empty: "parse_float_maps L (Some []) = None"
  by (simp add: parse_float_maps_def strip_def)

subsection \<open>Order of the rows\<close>



lemma out_dates_keys_strict:
  assumes "1000 \<le> fst sd"
  shows "sorted_wrt (<) (map (\<lambda>d. the (strptime d)) (out_dates L sd rows))"
proof -
  have "inj_on (\<lambda>d. the (strptime d)) (set (out_dates L sd rows))"
  proof (rule inj_onI)
    fix a b assume a: "a \<in> set (out_dates L sd rows)" and b: "b \<in> set (out_dates L sd rows)"
      and e: "the (strptime a) = the (strptime b)"
    from a obtain da where da: "strptime a = Some da" "a = strftime da"
      using valid_dates_parse[of a sd rows] assms by (auto simp: set_out_dates)
    from b obtain db where db: "strptime b = Some db" "b = strftime db"
      using valid_dates_parse[of b sd rows] assms by (auto simp: set_out_dates)
    from e da(1) db(1) have "da = db" by simp
    then show "a = b" using da(2) db(2) by simp
  qed
  then have "distinct (map (\<lambda>d. the (strptime d)) (out_dates L sd rows))"
    by (simp add: distinct_map distinct_out_dates)
  then show ?thesis using sorted_out_dates[of L sd rows] by (simp add: strict_sorted_iff)
qed




subsection \<open>Rows that are skipped\<close>

lemma add_row_skip: "row_key sd r = None \<Longrightarrow> add_row L sd data r = data"
  by (simp add: add_row_def)

lemma foldl_add_row_filter:
  "foldl (add_row L sd) data rows = foldl (add_row L sd) data (filter (retained sd) rows)"
proof (induction rows arbitrary: data)
  case Nil
  then show ?case by simp
next
  case (Cons r rows)
  show ?case
  proof (cases "retained sd r")
    case True
    then show ?thesis using Cons by simp
  next
    case False
    then have "add_row L sd data r = data" by (simp add: add_row_skip row_key_eq)
    then show ?thesis using Cons False by simp
  qed
qed

lemma load_raw_data_retained:
  "load_raw_data L sd rows = load_raw_data L sd (filter (retained sd) rows)"
  unfolding load_raw_data_def by (rule foldl_add_row_filter)

lemma load_raw_data_removeAll:
  assumes "\<not> retained sd r"
  shows "load_raw_data L sd (removeAll r rows) = load_raw_data L sd rows"
proof -
  have "filter (retained sd) (removeAll r rows) = filter (retained sd) rows"
    using assms by (induction rows) auto
  then show ?thesis
    using load_raw_data_retained[of L sd rows] load_raw_data_retained[of L sd "removeAll r rows"]
    by simp
qed

lemma present_values_mem:
  "r \<in> set rows \<Longrightarrow> parse_float L (col r) = Some x \<Longrightarrow> x \<in> set (present_values L col rows)"
  by (auto simp: present_values_def set_map_filter_conv)

lemma set_with_subqueues:
  "set (with_subqueues qs rows) =
     set qs \<union> {q. q \<noteq> [] \<and> (\<exists>r \<in> set rows. q = strip (or_empty (raw_subqueue r)))}"
  unfolding with_subqueues_def
  by (induction rows arbitrary: qs) (auto simp: Let_def)

lemma contributes_iff:
  assumes "r \<in> set rows" "report_date r = Some d" "report_region r \<noteq> []"
  shows "contributes L r (load_raw_data L sd rows) \<longleftrightarrow> sd \<le> d"
proof
  let ?k = "(strftime d, report_region r)"
  have gk: "group_key r = Some ?k" using assms(2) by (simp add: group_key_def)
  have vd: "valid_date d" using assms(2) strptime_valid by (auto simp: report_date_def)
  {
    assume "contributes L r (load_raw_data L sd rows)"
    then have "map_of (load_raw_data L sd rows) ?k \<noteq> None"
      by (auto simp: contributes_def gk split: option.splits)
    then have "group_rows sd rows ?k \<noteq> []" by (auto simp: map_of_load_raw_data split: if_splits)
    then obtain r' where r': "r' \<in> set rows" "retained sd r'" "group_key r' = Some ?k"
      by (auto simp: group_rows_nonempty_iff)
    from group_key_valid[OF r'(3)] obtain d' where
      d': "report_date r' = Some d'" "valid_date d'" "strftime d' = strftime d" by auto
    have "d' = d" by (rule strftime_inj[OF d'(2) vd d'(3)])
    then show "sd \<le> d" using r'(2) d'(1) by (simp add: retained_def)
  }
  {
    assume "sd \<le> d"
    then have ret: "retained sd r" using assms by (simp add: retained_def)
    then have mem: "r \<in> set (group_rows sd rows ?k)"
      using assms(1) gk by (simp add: group_rows_def)
    then have ne: "group_rows sd rows ?k \<noteq> []" by auto
    have m: "map_of (load_raw_data L sd rows) ?k =
               Some (cell_with L empty_cell (group_rows sd rows ?k))"
      using ne by (simp add: map_of_load_raw_data)
    show "contributes L r (load_raw_data L sd rows)"
      using mem present_values_mem[OF mem]
      by (auto simp: contributes_def gk m cell_with_def empty_cell_def set_with_subqueues
          split: option.splits)
  }
qed

subsection \<open>The colour function\<close>

lemma floor_half: "\<lfloor>(of_int h :: rat) + 1 / 2\<rfloor> = h"
  by (rule floor_unique) simp_all

lemma math_round_int: "math_round (Number (of_int h)) = Number (of_int h)"
  by (simp add: floor_half)

lemma getColor_int:
  "getColor (Number (of_int h)) =
     (if h \<le> 0 then ''#2f9e44'' else if h \<le> 4 then ''#f2e86d'' else if h \<le> 8 then ''#f5c76b''
      else if h \<le> 12 then ''#f19a6b'' else if h \<le> 16 then ''#e76b5a''
      else if h \<le> 20 then ''#c7433c'' else ''#8f1d1d'')"
  unfolding getColor_def math_round_int Let_def
  by (simp add: palette_def color_def)

lemma spec_bucket_cases:
  "spec_bucket h =
     (if h = 0 then Some ''0'' else if 1 \<le> h \<and> h \<le> 4 then Some ''1-4''
      else if 5 \<le> h \<and> h \<le> 8 then Some ''5-8'' else if 9 \<le> h \<and> h \<le> 12 then Some ''9-12''
      else if 13 \<le> h \<and> h \<le> 16 then Some ''13-16'' else if 17 \<le> h \<and> h \<le> 20 then Some ''17-20''
      else if 21 \<le> h \<and> h \<le> 24 then Some ''21-24'' else None)"
  by (simp add: spec_bucket_def spec_buckets_def)

lemma getColor_round: "getColor (Number r) = getColor (Number (of_int \<lfloor>r + 1 / 2\<rfloor>))"
  unfolding getColor_def Let_def math_round_int by simp

subsection \<open>Rows of regions outside the mapping\<close>

lemma group_rows_known:
  assumes "ob \<in> fst ` set ids"
  shows "group_rows sd (filter (known_region ids) rows) (d, ob) = group_rows sd rows (d, ob)"
proof -
  have "\<And>r. group_key r = Some (d, ob) \<Longrightarrow> known_region ids r"
    using assms by (auto simp: group_key_def known_region_def split: option.splits)
  then show ?thesis
    unfolding group_rows_def filter_filter by (intro filter_cong) auto
qed

lemma output_row_known:
  assumes "ob \<in> fst ` set ids"
  shows "output_row L ids (load_raw_data L sd (filter (known_region ids) rows)) d ob =
         output_row L ids (load_raw_data L sd rows) d ob"
  unfolding output_row_def values_load_raw_data group_rows_known[OF assms] ..

lemma write_rows_known:
  assumes "set obs \<subseteq> fst ` set ids"
  shows "write_rows L ids (load_raw_data L sd (filter (known_region ids) rows)) dates obs =
         write_rows L ids (load_raw_data L sd rows) dates obs"
  unfolding write_rows_def
  using assms by (intro arg_cong[where f = concat] map_cong refl output_row_known) auto

lemma filter_write_rows:
  "filter (\<lambda>r. P (Date r)) (write_rows L ids a dates obs) = write_rows L ids a (filter P dates) obs"
proof (induction dates)
  case Nil
  then show ?case by (simp add: write_rows_def)
next
  case (Cons d dates)
  have "filter (\<lambda>r. P (Date r)) (map (output_row L ids a d) obs) =
          (if P d then map (output_row L ids a d) obs else [])"
    by (induction obs) (auto simp: output_row_fields)
  then show ?case using Cons by (simp add: write_rows_Cons)
qed

lemma valid_dates_filter_subset:
  "valid_dates sd (filter P rows) \<subseteq> valid_dates sd rows"
  by (force simp: valid_dates_iff)

lemma out_dates_key_inj:
  assumes "1000 \<le> fst sd"
  shows "inj_on (\<lambda>d. the (strptime d)) (valid_dates sd rows)"
proof (rule inj_onI)
  fix a b assume a: "a \<in> valid_dates sd rows" and b: "b \<in> valid_dates sd rows"
    and e: "the (strptime a) = the (strptime b)"
  from valid_dates_parse[OF a assms] obtain da where da: "strptime a = Some da" "a = strftime da"
    by auto
  from valid_dates_parse[OF b assms] obtain db where db: "strptime b = Some db" "b = strftime db"
    by auto
  from e da(1) db(1) have "da = db" by simp
  then show "a = b" using da(2) db(2) by simp
qed

lemma out_dates_filter:
  assumes "1000 \<le> fst sd"
  shows "out_dates L sd (filter P rows) =
     filter (\<lambda>d. d \<in> valid_dates sd (filter P rows)) (out_dates L sd rows)"
proof -
  let ?key = "\<lambda>d. the (strptime d)"
  let ?X = "out_dates L sd (filter P rows)"
  let ?Y = "filter (\<lambda>d. d \<in> valid_dates sd (filter P rows)) (out_dates L sd rows)"
  have sx: "sorted_wrt (<) (map ?key ?X)" by (rule out_dates_keys_strict[OF assms])
  have "sorted_wrt (<) (map ?key (out_dates L sd rows))" by (rule out_dates_keys_strict[OF assms])
  then have sy: "sorted_wrt (<) (map ?key ?Y)"
    by (simp add: sorted_wrt_map sorted_wrt_filter)
  have setx: "set ?X = valid_dates sd (filter P rows)" by (rule set_out_dates)
  have sety: "set ?Y = valid_dates sd (filter P rows)"
    using valid_dates_filter_subset[of sd P rows] by (auto simp: set_out_dates)
  have "map ?key ?X = map ?key ?Y"
    using sx sy setx sety
    by (intro sorted_distinct_set_unique) (simp_all add: strict_sorted_iff)
  moreover have "inj_on ?key (set ?X \<union> set ?Y)"
    unfolding setx sety using out_dates_key_inj[OF assms, of "filter P rows"] by simp
  ultimately show ?thesis by (simp add: inj_on_map_eq_map)
qed

subsection \<open>The loading loop\<close>

lemma lookup2_step:
  "lookup2 (fst (load_clean_step L (data, dates) row)) date gid =
     (if indexed row \<and> row_date_text row = date \<and> row_gid row = gid
      then Some (row_entry L row) else lookup2 data date gid)"
  by (auto simp: load_clean_step_def lookup2_def indexed_def row_date_text_def row_gid_def
      Let_def map_of_map_entry map_of_setdefault update_conv' split: option.splits)

lemma dates_step:
  "snd (load_clean_step L (data, dates) row) =
     dates @ (case (if indexed row then strptime (row_date_text row) else None) of
                None \<Rightarrow> [] | Some d \<Rightarrow> [d])"
  by (auto simp: load_clean_step_def indexed_def row_date_text_def row_gid_def Let_def
      split: option.splits)

lemma last_row_for_snoc:
  "last_row_for (rows @ [r]) date gid =
     (if indexed r \<and> row_date_text r = date \<and> row_gid r = gid then Some r
      else last_row_for rows date gid)"
  by (simp add: last_row_for_def)

lemma lookup2_foldl:
  "lookup2 (fst (foldl (load_clean_step L) (data, dates) rows)) date gid =
     (case last_row_for rows date gid of
        None \<Rightarrow> lookup2 data date gid
      | Some r \<Rightarrow> Some (row_entry L r))"
proof (induction rows rule: rev_induct)
  case Nil
  then show ?case by (simp add: last_row_for_def)
next
  case (snoc r rows)
  obtain data' dates' where st: "foldl (load_clean_step L) (data, dates) rows = (data', dates')"
    by (cases "foldl (load_clean_step L) (data, dates) rows") auto
  show ?case using snoc
    by (simp add: st lookup2_step last_row_for_snoc)
qed

lemma dates_foldl:
  "snd (foldl (load_clean_step L) (data, dates) rows) =
     dates @ List.map_filter (\<lambda>r. if indexed r then strptime (row_date_text r) else None) rows"
proof (induction rows rule: rev_induct)
  case Nil
  then show ?case by (simp add: List.map_filter_simps)
next
  case (snoc r rows)
  obtain data' dates' where st: "foldl (load_clean_step L) (data, dates) rows = (data', dates')"
    by (cases "foldl (load_clean_step L) (data, dates) rows") auto
  show ?case using snoc
    by (simp add: st dates_step List.map_filter_def split: option.splits)
qed

lemma load_clean_data_eq:
  "load_clean_data L rows =
     (map strftime (sort (remdups (snd (foldl (load_clean_step L) ([], []) rows)))),
      fst (foldl (load_clean_step L) ([], []) rows))"
  by (simp add: load_clean_data_def Let_def split: prod.splits)

lemma lookup2_Nil: "lookup2 [] date gid = None"
  by (simp add: lookup2_def)

lemma lookup2_load_clean_data:
  "lookup2 (snd (load_clean_data L rows)) date gid =
     map_option (row_entry L) (last_row_for rows date gid)"
  by (simp add: load_clean_data_eq lookup2_foldl lookup2_Nil split: option.splits)

lemma dates_load_clean_data:
  "set (fst (load_clean_data L rows)) =
     {strftime d | d r. r \<in> set rows \<and> indexed r \<and> strptime (row_date_text r) = Some d}"
  by (auto simp: load_clean_data_eq dates_foldl set_map_filter_conv split: if_splits)

lemma strptime_date_list:
  assumes "s \<in> set (fst (load_clean_data L rows))"
    and "\<forall>y \<in> set rows. \<forall>d. strptime (row_date_text y) = Some d \<longrightarrow> 1000 \<le> fst d"
  shows "strptime s \<noteq> None"
proof -
  from assms(1) obtain d r where
    r: "s = strftime d" "r \<in> set rows" "strptime (row_date_text r) = Some d"
    by (auto simp: dates_load_clean_data)
  have "valid_date d" using r(3) by (rule strptime_valid)
  moreover have "1000 \<le> fst d" using assms(2) r(2,3) by blast
  ultimately have "strptime (strftime d) = Some d" by (rule strptime_strftime)
  then show ?thesis by (simp add: r(1))
qed

lemma find_SomeD: "find P xs = Some x \<Longrightarrow> x \<in> set xs \<and> P x"
  by (induction xs) (auto split: if_splits)

lemma find_append_conv:
  "find P (xs @ ys) = (case find P xs of None \<Rightarrow> find P ys | Some x \<Rightarrow> Some x)"
  by (induction xs) auto

lemma last_row_for_Some:
  assumes "last_row_for rows date gid = Some r"
  shows "r \<in> set rows \<and> indexed r \<and> row_date_text r = date \<and> row_gid r = gid"
  using find_SomeD[OF assms[unfolded last_row_for_def]] by simp

lemma last_row_for_append:
  assumes "indexed r"
    and "\<forall>y \<in> set ys. row_date_text y \<noteq> row_date_text r \<or> row_gid y \<noteq> row_gid r"
  shows "last_row_for (xs @ r # ys) (row_date_text r) (row_gid r) = Some r"
proof -
  have "find (\<lambda>x. indexed x \<and> row_date_text x = row_date_text r \<and> row_gid x = row_gid r) (rev ys) = None"
    using assms(2) by (auto simp: find_None_iff)
  then show ?thesis using assms(1)
    by (simp add: last_row_for_def find_append_conv)
qed

lemma last_row_for_exists:
  assumes "r \<in> set rows" "indexed r"
  shows "\<exists>r'. last_row_for rows (row_date_text r) (row_gid r) = Some r'"
proof -
  have "find (\<lambda>x. indexed x \<and> row_date_text x = row_date_text r \<and> row_gid x = row_gid r) (rev rows) \<noteq> None"
    using assms by (auto simp: find_None_iff)
  then show ?thesis by (auto simp: last_row_for_def)
qed

subsection \<open>Texts that \<open>float()\<close> accepts\<close>

lemma is_digit_not_special:
  assumes "is_digit c"
  shows "c \<noteq> CHR ''.''" "c \<noteq> CHR '',''" "c \<noteq> CHR ''_''" "c \<noteq> CHR ''+''" "c \<noteq> CHR ''-''"
    "\<not> is_space c"
  using assms by (auto simp: is_digit_def is_space_def)

lemma digitpart_digits: "xs \<noteq> [] \<Longrightarrow> list_all is_digit xs \<Longrightarrow> digitpart xs"
  by (induction xs rule: digitpart.induct) (auto simp: is_digit_not_special)

lemma takeWhile_digits_append:
  assumes "list_all is_digit xs" "\<not> is_digitpart_char c"
  shows "takeWhile is_digitpart_char (xs @ c # r) = xs"
    "dropWhile is_digitpart_char (xs @ c # r) = c # r"
  using assms by (induction xs) (auto simp: is_digitpart_char_def)

lemma takeWhile_digits_all:
  assumes "list_all is_digit xs"
  shows "takeWhile is_digitpart_char xs = xs" "dropWhile is_digitpart_char xs = []"
  using assms by (induction xs) (auto simp: is_digitpart_char_def)

lemma point_not_digitpart_char: "\<not> is_digitpart_char (CHR ''.'')"
  by (simp add: is_digitpart_char_def is_digit_def)

lemma floatnumber_digits:
  assumes "ip \<noteq> []" "list_all is_digit ip"
  shows "floatnumber ip"
  using assms
  by (simp add: floatnumber_def takeWhile_digits_all digitpart_digits Let_def)

lemma floatnumber_point:
  assumes "ip \<noteq> []" "list_all is_digit ip" "fp \<noteq> []" "list_all is_digit fp"
  shows "floatnumber (ip @ CHR ''.'' # fp)"
  using assms
  by (simp add: floatnumber_def takeWhile_digits_append[OF assms(2) point_not_digitpart_char]
      takeWhile_digits_all digitpart_digits Let_def)

lemma replace_comma_digits: "list_all is_digit xs \<Longrightarrow> replace_comma xs = xs"
  by (induction xs) (auto simp: replace_comma_def is_digit_not_special)

lemma replace_comma_append: "replace_comma (xs @ ys) = replace_comma xs @ replace_comma ys"
  by (simp add: replace_comma_def)

lemma strip_sign_replace_comma: "strip_sign (replace_comma t) = replace_comma (strip_sign t)"
  by (cases t) (auto simp: strip_sign_def replace_comma_def)

lemma is_space_replace:
  "is_space (if c = CHR '','' then CHR ''.'' else c) = is_space c"
  by (simp add: is_space_def)

lemma strip_replace_comma: "strip (replace_comma x) = replace_comma (strip x)"
proof -
  let ?f = "\<lambda>c. if c = CHR '','' then CHR ''.'' else c"
  have dw: "\<And>xs. dropWhile is_space (map ?f xs) = map ?f (dropWhile is_space xs)"
    by (simp add: dropWhile_map comp_def is_space_replace)
  show ?thesis
    unfolding strip_def replace_comma_def
    by (simp only: dw rev_map)
qed

lemma spec_decimal_shape:
  assumes "spec_decimal t"
  shows "\<exists>ip fp. ip \<noteq> [] \<and> list_all is_digit ip \<and>
           (strip_sign t = ip \<or>
            (fp \<noteq> [] \<and> list_all is_digit fp \<and>
             (strip_sign t = ip @ CHR ''.'' # fp \<or> strip_sign t = ip @ CHR '','' # fp)))"
proof -
  let ?u = "strip_sign t"
  let ?ip = "takeWhile is_digit ?u"
  let ?r = "dropWhile is_digit ?u"
  have u: "?u = ?ip @ ?r" by simp
  have ip: "?ip \<noteq> []" "list_all is_digit ?ip"
    using assms by (auto simp: spec_decimal_def Let_def list_all_iff dest: set_takeWhileD)
  show ?thesis
  proof (cases ?r)
    case Nil
    have "?u = ?ip @ []" using u by (simp only: Nil)
    then have "?u = ?ip" by (simp only: append_Nil2)
    with ip show ?thesis by metis
  next
    case (Cons c fp)
    then have c: "(c = CHR ''.'' \<or> c = CHR '','')" "fp \<noteq> []" "list_all is_digit fp"
      using assms by (auto simp: spec_decimal_def Let_def)
    have "?u = ?ip @ c # fp" using u by (simp only: Cons)
    with ip c show ?thesis by metis
  qed
qed

lemma spec_decimal_floatnumber:
  assumes "spec_decimal t"
  shows "floatnumber (strip_sign (replace_comma t))"
proof -
  from spec_decimal_shape[OF assms] obtain ip fp where
    ip: "ip \<noteq> []" "list_all is_digit ip" and
    sh: "strip_sign t = ip \<or>
         (fp \<noteq> [] \<and> list_all is_digit fp \<and>
          (strip_sign t = ip @ CHR ''.'' # fp \<or> strip_sign t = ip @ CHR '','' # fp))"
    by blast
  from sh show ?thesis
  proof (elim disjE conjE)
    assume "strip_sign t = ip"
    then show ?thesis using ip
      by (simp add: strip_sign_replace_comma replace_comma_digits floatnumber_digits)
  next
    assume fp: "fp \<noteq> []" "list_all is_digit fp" and e: "strip_sign t = ip @ CHR ''.'' # fp"
    have "replace_comma (ip @ CHR ''.'' # fp) = ip @ CHR ''.'' # fp"
      using ip fp replace_comma_digits[of ip] replace_comma_digits[of fp]
      by (simp add: replace_comma_def)
    then show ?thesis using ip fp
      by (simp add: strip_sign_replace_comma e floatnumber_point)
  next
    assume fp: "fp \<noteq> []" "list_all is_digit fp" and e: "strip_sign t = ip @ CHR '','' # fp"
    have "replace_comma (ip @ CHR '','' # fp) = ip @ CHR ''.'' # fp"
      using ip fp replace_comma_digits[of ip] replace_comma_digits[of fp]
      by (simp add: replace_comma_def)
    then show ?thesis using ip fp
      by (simp add: strip_sign_replace_comma e floatnumber_point)
  qed
qed

lemma spec_decimal_not_Nil: "\<not> spec_decimal []"
  by (simp add: spec_decimal_def strip_sign_def)

lemma spec_decimal_accepted:
  assumes "spec_decimal (strip s)"
  shows "parse_float L (Some s) = Some (float_value L (replace_comma (strip s)))"
proof -
  have ne: "strip s \<noteq> []" using assms spec_decimal_not_Nil by auto
  have "strip (replace_comma (strip s)) = replace_comma (strip s)"
    by (simp add: strip_replace_comma strip_strip)
  then have "float_syntax (replace_comma (strip s))"
    using spec_decimal_floatnumber[OF assms] by (simp add: float_syntax_def Let_def)
  then show ?thesis using ne by (simp add: parse_float_def py_float_def Let_def)
qed

lemma parse_float_Some_iff:
  "parse_float L v \<noteq> None \<longleftrightarrow> (\<exists>s. v = Some s \<and> float_syntax (replace_comma (strip s)))"
proof (cases v)
  case None
  then show ?thesis by (simp add: parse_float_def)
next
  case (Some s)
  show ?thesis
  proof (cases "strip s = []")
    case True
    then show ?thesis using Some float_syntax_Nil
      by (simp add: parse_float_def replace_comma_def)
  next
    case False
    then show ?thesis using Some
      by (simp add: parse_float_def py_float_def Let_def)
  qed
qed

subsection \<open>The clean dataset read back\<close>

lemma map_of_stripped:
  assumes "stripped_mapping ids" "map_of ids ob = Some g"
  shows "strip g = g"
  using assms map_of_SomeD[OF assms(2)] by (auto simp: stripped_mapping_def)

lemma written_row_keys:
  assumes "stripped_mapping ids"
    and "r \<in> set (write_rows L ids a (out_dates L sd rows) obs)"
  shows "row_date_text (as_dict_row r) = Date r" "row_gid (as_dict_row r) = GID_1 r"
    "Date r \<noteq> []"
proof -
  from assms(2) obtain d ob where e: "r = output_row L ids a d ob"
    and d: "d \<in> set (out_dates L sd rows)"
    by (auto simp: set_write_rows)
  from d have "d \<in> valid_dates sd rows" by (simp add: set_out_dates)
  from valid_dates_strftime[OF this] obtain dt where dt: "d = strftime dt" "valid_date dt" by auto
  show "row_date_text (as_dict_row r) = Date r"
    using strip_strftime[OF dt(2)]
    by (simp add: row_date_text_def as_dict_row_def or_empty_def e output_row_fields dt(1))
  show "Date r \<noteq> []"
    by (simp add: e output_row_fields dt(1) strftime_not_Nil)
  have "strip (GID_1 r) = GID_1 r"
    using map_of_stripped[OF assms(1)]
    by (auto simp: e output_row_fields strip_def split: option.splits)
  then show "row_gid (as_dict_row r) = GID_1 r"
    by (simp add: row_gid_def as_dict_row_def or_empty_def)
qed

lemma row_entry_as_dict_row:
  "row_entry L (as_dict_row r) =
     \<lparr>entry_scheduled = parse_float_maps L (Some (Scheduled_outages r)),
      entry_actual = parse_float_maps L (Some (Actual_outages r)),
      entry_subqueues = strip (Subqueues r)\<rparr>"
  by (simp add: row_entry_def as_dict_row_def or_empty_def)

lemma float_text_chars:
  assumes "c \<in> set ''0123456789.e+-infa''"
  shows "\<not> is_space c" "c \<noteq> CHR '',''"
  using assms by (auto simp: is_space_def)

lemma parse_str_reads_back:
  assumes "str_reads_back L x"
  shows "\<exists>v. parse_float_maps L (Some (float_str L x)) = Some v \<and> float_eq L v x"
proof -
  let ?t = "float_str L x"
  from assms have al: "\<forall>c \<in> set ?t. c \<in> set ''0123456789.e+-infa''"
    and fs: "float_syntax ?t" and eq: "float_eq L (float_value L ?t) x"
    by (simp_all add: str_reads_back_def list_all_iff)
  have ne: "?t \<noteq> []" using fs float_syntax_Nil by auto
  then have "hd ?t \<in> set ?t" "last ?t \<in> set ?t" by simp_all
  then have "\<not> is_space (hd ?t)" "\<not> is_space (last ?t)"
    using al float_text_chars(1) by blast+
  then have st: "strip ?t = ?t" by (intro strip_id) simp
  have "\<forall>c \<in> set ?t. c \<noteq> CHR '',''" using al float_text_chars(2) by blast
  then have rc: "replace_comma ?t = ?t"
    unfolding replace_comma_def by (intro map_idI) simp
  have "parse_float_maps L (Some ?t) = Some (float_value L ?t)"
    using ne fs by (simp add: parse_float_maps_def py_float_def Let_def st rc)
  with eq show ?thesis by blast
qed

lemma avg_text_equals_average:
  assumes "xs \<noteq> [] \<longrightarrow> str_reads_back L (mean L xs)"
  shows "equals_average L (parse_float_maps L (Some (avg_text L xs))) xs"
proof (cases "xs = []")
  case True
  then show ?thesis by (simp add: avg_text_def parse_float_maps_empty equals_average_def)
next
  case False
  with assms have "str_reads_back L (mean L xs)" by simp
  from parse_str_reads_back[OF this] obtain v where
    "parse_float_maps L (Some (float_str L (mean L xs))) = Some v" "float_eq L v (mean L xs)"
    by blast
  then show ?thesis using False by (simp add: avg_text_def equals_average_def)
qed

lemma find_rev_split:
  assumes "find P (rev zs) = Some x"
  shows "\<exists>as bs. zs = as @ x # bs \<and> P x \<and> (\<forall>b \<in> set bs. \<not> P b)"
  using assms
proof (induction zs rule: rev_induct)
  case Nil
  then show ?case by simp
next
  case (snoc w ws)
  show ?case
  proof (cases "P w")
    case True
    with snoc.prems have "x = w" by simp
    then have "ws @ [w] = ws @ x # [] \<and> P x \<and> (\<forall>b \<in> set []. \<not> P b)" using True by simp
    then show ?thesis by blast
  next
    case False
    with snoc.prems have "find P (rev ws) = Some x" by simp
    from snoc.IH[OF this] obtain as bs where
      s: "ws = as @ x # bs" "P x" "\<forall>b \<in> set bs. \<not> P b" by blast
    have "ws @ [w] = as @ x # (bs @ [w]) \<and> P x \<and> (\<forall>b \<in> set (bs @ [w]). \<not> P b)"
      using s False by simp
    then show ?thesis by blast
  qed
qed

lemma find_map_conv: "find P (map f xs) = map_option f (find (\<lambda>x. P (f x)) xs)"
  by (induction xs) auto

lemma written_rows_unique:
  assumes "\<forall>p \<in> set ids. \<forall>q \<in> set ids. snd p = snd q \<and> snd p \<noteq> [] \<longrightarrow> p = q"
    and "r \<in> set (write_rows L ids a dates obs)" "r' \<in> set (write_rows L ids a dates obs)"
    and "Date r' = Date r" "GID_1 r' = GID_1 r" "GID_1 r \<noteq> []"
  shows "r' = r"
proof -
  from assms(2) obtain d ob where e: "r = output_row L ids a d ob"
    by (auto simp: set_write_rows)
  from assms(3) obtain d' ob' where e': "r' = output_row L ids a d' ob'"
    by (auto simp: set_write_rows)
  have dd: "d' = d" using assms(4) by (simp add: e e' output_row_fields)
  from assms(6) obtain g where g: "map_of ids ob = Some g" "g \<noteq> []" "GID_1 r = g"
    by (auto simp: e output_row_fields split: option.splits)
  from assms(5,6) obtain g' where g': "map_of ids ob' = Some g'" "GID_1 r' = g'"
    by (auto simp: e e' output_row_fields split: option.splits)
  have "g' = g" using g(3) g'(2) assms(5) by simp
  then have "(ob, g) \<in> set ids" "(ob', g) \<in> set ids"
    using map_of_SomeD[OF g(1)] map_of_SomeD[OF g'(1)] by simp_all
  with assms(1) g(2) have "(ob, g) = (ob', g)" by fastforce
  then show ?thesis using dd by (simp add: e e')
qed

section \<open>The claims about \<open>clean_data.py\<close>\<close>





text \<open>
  Claim C4, as stated: for every raw row with a parseable date, the row contributes to
  the aggregate if and only if its date is at or after the threshold. The code first
  skips a row without a region name, whatever its date: the row below is dated after
  the threshold and nothing is aggregated from it.
\<close>

theorem threshold_iff_counterexample:
  "report_date (raw ''01.02.2026'' '''' ''A'' ''4'' ''4'') = Some (2026, 2, 1)
   \<and> ((2026, 1, 31) :: date) \<le> (2026, 2, 1)
   \<and> \<not> contributes example_lib (raw ''01.02.2026'' '''' ''A'' ''4'' ''4'')
        (load_raw_data example_lib (2026, 1, 31) [raw ''01.02.2026'' '''' ''A'' ''4'' ''4''])
   \<and> load_raw_data example_lib (2026, 1, 31) [raw ''01.02.2026'' '''' ''A'' ''4'' ''4''] = []"
proof -
  let ?r = "raw ''01.02.2026'' '''' ''A'' ''4'' ''4''"
  have a: "report_date ?r = Some (2026, 2, 1)" by code_simp
  have b: "load_raw_data example_lib (2026, 1, 31) [?r] = []" by code_simp
  have c: "\<not> contributes example_lib ?r []"
    by (simp add: contributes_def group_key_def a)
  have d: "((2026, 1, 31) :: date) \<le> (2026, 2, 1)" by simp
  from a b c d show ?thesis by simp
qed

text \<open>
  Claim C4, amended: for every raw row with a parseable date and a non-empty region
  name, the row contributes to the aggregate if and only if its date is at or after the
  threshold (inclusive), and a row dated strictly before the threshold is excluded
  entirely: the aggregate is the one of the input without that row.
\<close>

theorem threshold_filter:
  assumes "r \<in> set rows" and "report_date r = Some d" and "report_region r \<noteq> []"
  shows "(contributes L r (load_raw_data L sd rows) \<longleftrightarrow> sd \<le> d)
    \<and> (d < sd \<longrightarrow> load_raw_data L sd (removeAll r rows) = load_raw_data L sd rows)"
proof -
  have "d < sd \<longrightarrow> load_raw_data L sd (removeAll r rows) = load_raw_data L sd rows"
  proof
    assume "d < sd"
    then have "\<not> sd \<le> d" by (simp only: not_le)
    then have "\<not> retained sd r" using assms(2) by (simp add: retained_def)
    then show "load_raw_data L sd (removeAll r rows) = load_raw_data L sd rows"
      by (rule load_raw_data_removeAll)
  qed
  with contributes_iff[OF assms] show ?thesis by simp
qed

text \<open>
  The theorem on the example input with the threshold 31.01.2026: the row of
  15.01.2026 is excluded, the first row of 01.03.2026 contributes, and so does a row
  dated on the threshold itself.
\<close>

theorem threshold_filter_witness:
  "raw ''15.01.2026'' ''Kyiv'' ''A'' ''8'' ''8'' \<in> set example_rows
   \<and> report_date (raw ''15.01.2026'' ''Kyiv'' ''A'' ''8'' ''8'') = Some (2026, 1, 15)
   \<and> report_region (raw ''15.01.2026'' ''Kyiv'' ''A'' ''8'' ''8'') \<noteq> []
   \<and> \<not> contributes example_lib (raw ''15.01.2026'' ''Kyiv'' ''A'' ''8'' ''8'')
         (load_raw_data example_lib (2026, 1, 31) example_rows)
   \<and> load_raw_data example_lib (2026, 1, 31)
         (removeAll (raw ''15.01.2026'' ''Kyiv'' ''A'' ''8'' ''8'') example_rows)
       = load_raw_data example_lib (2026, 1, 31) example_rows
   \<and> contributes example_lib (raw ''01.03.2026'' ''Kyiv'' ''B'' ''4'' '''')
         (load_raw_data example_lib (2026, 1, 31) example_rows)
   \<and> contributes example_lib (raw ''31.01.2026'' ''Kyiv'' ''B'' ''4'' '''')
         (load_raw_data example_lib (2026, 1, 31) [raw ''31.01.2026'' ''Kyiv'' ''B'' ''4'' ''''])"
proof -
  let ?old = "raw ''15.01.2026'' ''Kyiv'' ''A'' ''8'' ''8''"
  let ?new = "raw ''01.03.2026'' ''Kyiv'' ''B'' ''4'' ''''"
  let ?on = "raw ''31.01.2026'' ''Kyiv'' ''B'' ''4'' ''''"
  have a1: "?old \<in> set example_rows" by (simp add: example_rows_def)
  have a2: "report_date ?old = Some (2026, 1, 15)" by code_simp
  have a3: "report_region ?old \<noteq> []" by code_simp
  have b1: "?new \<in> set example_rows" by (simp add: example_rows_def)
  have b2: "report_date ?new = Some (2026, 3, 1)" by code_simp
  have b3: "report_region ?new \<noteq> []" by code_simp
  have c1: "?on \<in> set [?on]" by simp
  have c2: "report_date ?on = Some (2026, 1, 31)" by code_simp
  have c3: "report_region ?on \<noteq> []" by code_simp
  note old = threshold_filter[OF a1 a2 a3, of example_lib "(2026, 1, 31)"]
  note new = threshold_filter[OF b1 b2 b3, of example_lib "(2026, 1, 31)"]
  note on = threshold_filter[OF c1 c2 c3, of example_lib "(2026, 1, 31)"]
  have "\<not> contributes example_lib ?old (load_raw_data example_lib (2026, 1, 31) example_rows)"
    using old by simp
  moreover have "load_raw_data example_lib (2026, 1, 31) (removeAll ?old example_rows)
       = load_raw_data example_lib (2026, 1, 31) example_rows"
    using old by simp
  moreover have "contributes example_lib ?new (load_raw_data example_lib (2026, 1, 31) example_rows)"
    using new by simp
  moreover have "contributes example_lib ?on (load_raw_data example_lib (2026, 1, 31) [?on])"
    using on by simp
  ultimately show ?thesis using a1 a2 a3 by blast
qed

text \<open>
  Claim C5, as stated: rows whose region name is not known to the Region Resolver are
  excluded, and the output is the same as if those rows were absent from the input. The
  dates of the output are those of all retained rows, whatever their region: a single
  report from a region outside the mapping gives one row with empty values for every
  known region, and no row at all when it is absent. Such a row can also make the run
  raise: with a start date before the year 1000, a row of an unknown region dated
  01.01.0999 is retained, its date is formatted as \<open>01.01.999\<close>, and the sort of
  \<open>main\<close> raises \<open>ValueError\<close> on that string.
\<close>

theorem unknown_region_counterexample:
  "\<not> known_region [(''Lviv'', ''UA-46''), (''Kyiv'', ''UA-30'')]
        (raw ''01.02.2026'' ''Atlantis'' ''A'' ''4'' ''4'')
   \<and> main example_lib ''31.01.2026'' example_regions
        [raw ''01.02.2026'' ''Atlantis'' ''A'' ''4'' ''4''] =
       Inr [\<lparr>Date = ''01.02.2026'', Oblast = ''Kyiv'', GID_1 = ''UA-30'',
             Scheduled_outages = [], Actual_outages = [], Subqueues = []\<rparr>,
            \<lparr>Date = ''01.02.2026'', Oblast = ''Lviv'', GID_1 = ''UA-46'',
             Scheduled_outages = [], Actual_outages = [], Subqueues = []\<rparr>]
   \<and> main example_lib ''31.01.2026'' example_regions [] = Inr []
   \<and> main example_lib ''01.01.0001'' example_regions
        [raw ''01.01.0999'' ''Atlantis'' ''A'' ''4'' ''4''] = Inl ValueError
   \<and> main example_lib ''01.01.0001'' example_regions [] = Inr []"
proof -
  have a: "\<not> known_region [(''Lviv'', ''UA-46''), (''Kyiv'', ''UA-30'')]
        (raw ''01.02.2026'' ''Atlantis'' ''A'' ''4'' ''4'')"
    by code_simp
  have b: "main example_lib ''31.01.2026'' example_regions
        [raw ''01.02.2026'' ''Atlantis'' ''A'' ''4'' ''4''] =
       Inr [\<lparr>Date = ''01.02.2026'', Oblast = ''Kyiv'', GID_1 = ''UA-30'',
             Scheduled_outages = [], Actual_outages = [], Subqueues = []\<rparr>,
            \<lparr>Date = ''01.02.2026'', Oblast = ''Lviv'', GID_1 = ''UA-46'',
             Scheduled_outages = [], Actual_outages = [], Subqueues = []\<rparr>]"
    by code_simp
  have c: "main example_lib ''31.01.2026'' example_regions [] = Inr []"
    by code_simp
  have d: "main example_lib ''01.01.0001'' example_regions
        [raw ''01.01.0999'' ''Atlantis'' ''A'' ''4'' ''4''] = Inl ValueError"
    by code_simp
  have e: "main example_lib ''01.01.0001'' example_regions [] = Inr []"
    by code_simp
  from a b c d e show ?thesis by simp
qed

text \<open>
  Claim C5, amended: for a start date in the year 1000 or later, rows whose region
  name is not known to the Region Resolver never raise and no value from such a row
  appears in any output cell: every output row is the row computed from the rows of
  known regions alone. The output is the same as if those rows were absent, except that
  a date found only in such rows still has one row for every known region, with empty
  values: the output for the rows of known regions is the output with these rows left
  out.
\<close>

theorem unknown_regions_excluded:
  assumes "strptime start_arg = Some sd"
    and "load_region_ids region_rows = Inr region_ids"
    and "1000 \<le> fst sd"
  shows "\<exists>out out'. main L start_arg region_rows raw_rows = Inr out
    \<and> main L start_arg region_rows (filter (known_region region_ids) raw_rows) = Inr out'
    \<and> out' = filter (\<lambda>r. Date r \<in> valid_dates sd (filter (known_region region_ids) raw_rows)) out
    \<and> (\<forall>r \<in> set out.
          r = output_row L region_ids
                (load_raw_data L sd (filter (known_region region_ids) raw_rows)) (Date r) (Oblast r))
    \<and> (\<forall>r \<in> set out. Date r \<notin> valid_dates sd (filter (known_region region_ids) raw_rows) \<longrightarrow>
          Scheduled_outages r = [] \<and> Actual_outages r = [] \<and> Subqueues r = [])"
proof -
  let ?known = "filter (known_region region_ids) raw_rows"
  let ?a = "load_raw_data L sd raw_rows"
  let ?a' = "load_raw_data L sd ?known"
  let ?obs = "sort (map fst region_ids)"
  let ?out = "write_rows L region_ids ?a (out_dates L sd raw_rows) ?obs"
  let ?out' = "write_rows L region_ids ?a' (out_dates L sd ?known) ?obs"
  have m: "main L start_arg region_rows raw_rows = Inr ?out"
    by (rule main_eq[OF assms])
  have m': "main L start_arg region_rows ?known = Inr ?out'"
    by (rule main_eq[OF assms])
  have sub: "set ?obs \<subseteq> fst ` set region_ids" by simp
  have "?out' = write_rows L region_ids ?a (out_dates L sd ?known) ?obs"
    by (rule write_rows_known[OF sub])
  also have "\<dots> = write_rows L region_ids ?a
      (filter (\<lambda>d. d \<in> valid_dates sd ?known) (out_dates L sd raw_rows)) ?obs"
    by (subst out_dates_filter[OF assms(3)]) (rule refl)
  also have "\<dots> = filter (\<lambda>r. Date r \<in> valid_dates sd ?known) ?out"
    by (rule filter_write_rows[symmetric])
  finally have f: "?out' = filter (\<lambda>r. Date r \<in> valid_dates sd ?known) ?out" .
  have row: "\<forall>r \<in> set ?out. r = output_row L region_ids ?a' (Date r) (Oblast r)"
  proof
    fix r assume "r \<in> set ?out"
    then obtain d ob where e: "r = output_row L region_ids ?a d ob" and ob: "ob \<in> set ?obs"
      by (auto simp: set_write_rows)
    from ob have "ob \<in> fst ` set region_ids" by simp
    then have "output_row L region_ids ?a' d ob = output_row L region_ids ?a d ob"
      by (rule output_row_known)
    then show "r = output_row L region_ids ?a' (Date r) (Oblast r)"
      by (simp add: e output_row_fields)
  qed
  have blank: "\<forall>r \<in> set ?out. Date r \<notin> valid_dates sd ?known \<longrightarrow>
      Scheduled_outages r = [] \<and> Actual_outages r = [] \<and> Subqueues r = []"
  proof (intro ballI impI)
    fix r assume r: "r \<in> set ?out" and d: "Date r \<notin> valid_dates sd ?known"
    have "group_rows sd ?known (Date r, Oblast r) = []"
    proof (rule ccontr)
      assume "group_rows sd ?known (Date r, Oblast r) \<noteq> []"
      then have "Date r \<in> valid_dates sd ?known"
        unfolding group_rows_nonempty_iff valid_dates_iff by force
      with d show False by simp
    qed
    moreover from row r have "r = output_row L region_ids ?a' (Date r) (Oblast r)" by blast
    ultimately show "Scheduled_outages r = [] \<and> Actual_outages r = [] \<and> Subqueues r = []"
      using output_row_cells[of L region_ids sd ?known "Date r" "Oblast r"]
      by (simp add: present_values_Nil with_subqueues_Nil avg_text_def)
  qed
  from m m' f row blank show ?thesis by blast
qed

text \<open>
  The theorem on the example regions and two reports of 01.03.2026 from Kyiv, with and
  without a report of 02.02.2026 from a region outside the mapping.
\<close>

theorem unknown_regions_excluded_witness:
  "strptime ''31.01.2026'' = Some (2026, 1, 31)
   \<and> load_region_ids example_regions = Inr [(''Lviv'', ''UA-46''), (''Kyiv'', ''UA-30'')]
   \<and> 1000 \<le> fst ((2026, 1, 31) :: date)
   \<and> filter (known_region [(''Lviv'', ''UA-46''), (''Kyiv'', ''UA-30'')])
        [raw ''02.02.2026'' ''Atlantis'' ''A'' ''9'' ''9'', raw ''01.03.2026'' ''Kyiv'' ''B'' ''4'' '''']
       = [raw ''01.03.2026'' ''Kyiv'' ''B'' ''4'' '''']
   \<and> (\<exists>out out'.
        main example_lib ''31.01.2026'' example_regions
          [raw ''02.02.2026'' ''Atlantis'' ''A'' ''9'' ''9'', raw ''01.03.2026'' ''Kyiv'' ''B'' ''4'' '''']
          = Inr out
      \<and> main example_lib ''31.01.2026'' example_regions [raw ''01.03.2026'' ''Kyiv'' ''B'' ''4'' '''']
          = Inr out'
      \<and> out' = filter (\<lambda>r. Date r \<in> valid_dates (2026, 1, 31) [raw ''01.03.2026'' ''Kyiv'' ''B'' ''4'' '''']) out
      \<and> length out = 4 \<and> length out' = 2
      \<and> Date (out ! 0) \<notin> valid_dates (2026, 1, 31) [raw ''01.03.2026'' ''Kyiv'' ''B'' ''4'' '''']
      \<and> Scheduled_outages (out ! 0) = [] \<and> Actual_outages (out ! 0) = []
      \<and> Subqueues (out ! 0) = [])"
proof -
  let ?ids = "[(''Lviv'', ''UA-46''), (''Kyiv'', ''UA-30'')]"
  let ?u = "raw ''02.02.2026'' ''Atlantis'' ''A'' ''9'' ''9''"
  let ?k = "raw ''01.03.2026'' ''Kyiv'' ''B'' ''4'' ''''"
  have fl: "filter (known_region ?ids) [?u, ?k] = [?k]" by code_simp
  from unknown_regions_excluded[OF example_start example_region_ids example_year, of example_lib "[?u, ?k]"]
  obtain out out' where
    o: "main example_lib ''31.01.2026'' example_regions [?u, ?k] = Inr out"
       "main example_lib ''31.01.2026'' example_regions [?k] = Inr out'"
       "out' = filter (\<lambda>r. Date r \<in> valid_dates (2026, 1, 31) [?k]) out"
       "\<forall>r \<in> set out. Date r \<notin> valid_dates (2026, 1, 31) [?k] \<longrightarrow>
          Scheduled_outages r = [] \<and> Actual_outages r = [] \<and> Subqueues r = []"
    unfolding fl by blast
  have ev: "main example_lib ''31.01.2026'' example_regions [?u, ?k] =
     Inr [\<lparr>Date = ''02.02.2026'', Oblast = ''Kyiv'', GID_1 = ''UA-30'',
            Scheduled_outages = [], Actual_outages = [], Subqueues = []\<rparr>,
          \<lparr>Date = ''02.02.2026'', Oblast = ''Lviv'', GID_1 = ''UA-46'',
            Scheduled_outages = [], Actual_outages = [], Subqueues = []\<rparr>,
          \<lparr>Date = ''01.03.2026'', Oblast = ''Kyiv'', GID_1 = ''UA-30'',
            Scheduled_outages = ''4.0'', Actual_outages = [], Subqueues = ''B''\<rparr>,
          \<lparr>Date = ''01.03.2026'', Oblast = ''Lviv'', GID_1 = ''UA-46'',
            Scheduled_outages = [], Actual_outages = [], Subqueues = []\<rparr>]"
    by code_simp
  have vd: "valid_dates (2026, 1, 31) [?k] = {''01.03.2026''}" by code_simp
  have l: "length out = 4" using o(1) by (auto simp: ev)
  have d0: "Date (out ! 0) = ''02.02.2026''" using o(1) by (auto simp: ev)
  have l': "length out' = 2" using o(1) unfolding o(3) vd by (auto simp: ev)
  have nv: "Date (out ! 0) \<notin> valid_dates (2026, 1, 31) [?k]" unfolding d0 vd by simp
  have "out ! 0 \<in> set out" using l by simp
  with o(4) nv have "Scheduled_outages (out ! 0) = [] \<and> Actual_outages (out ! 0) = []
      \<and> Subqueues (out ! 0) = []" by blast
  with o(1,2,3) l l' nv fl show ?thesis
    by (simp add: example_start example_region_ids example_year)
qed



section \<open>The claim about the clean dataset between the two scripts\<close>

text \<open>
  Claim C3, as stated: the Map Data Loader, fed the output of the Clean Dataset Writer,
  has for every (date, region identifier) pair with a non-empty identifier values
  numerically equal to the written averages. Two region names may have the same
  identifier; both are written with it and the loader keeps the later row. Below, the
  row of Kyiv is written with the scheduled average \<open>4.0\<close>, and what is loaded for
  its date and identifier are the empty values of the row of Kyiv City. And a written
  average may be NaN, which is equal to no number: with the raw value \<open>nan\<close> the
  average is written as \<open>nan\<close> and loaded as NaN, which is not equal to the average.
\<close>

theorem round_trip_shared_identifier_counterexample:
  "main example_lib ''31.01.2026''
     [\<lparr>region_oblast = Some ''Kyiv'', region_gid = Some ''UA-30''\<rparr>,
      \<lparr>region_oblast = Some ''Kyiv City'', region_gid = Some ''UA-30''\<rparr>]
     [raw ''01.02.2026'' ''Kyiv'' '''' ''4'' '''']
    = Inr [\<lparr>Date = ''01.02.2026'', Oblast = ''Kyiv'', GID_1 = ''UA-30'',
             Scheduled_outages = ''4.0'', Actual_outages = [], Subqueues = []\<rparr>,
           \<lparr>Date = ''01.02.2026'', Oblast = ''Kyiv City'', GID_1 = ''UA-30'',
             Scheduled_outages = [], Actual_outages = [], Subqueues = []\<rparr>]
   \<and> parse_float_maps example_lib (Some ''4.0'') = Some 4
   \<and> lookup2 (snd (load_clean_data example_lib (map as_dict_row
         [\<lparr>Date = ''01.02.2026'', Oblast = ''Kyiv'', GID_1 = ''UA-30'',
             Scheduled_outages = ''4.0'', Actual_outages = [], Subqueues = []\<rparr>,
          \<lparr>Date = ''01.02.2026'', Oblast = ''Kyiv City'', GID_1 = ''UA-30'',
             Scheduled_outages = [], Actual_outages = [], Subqueues = []\<rparr>])))
        ''01.02.2026'' ''UA-30''
      = Some \<lparr>entry_scheduled = None, entry_actual = None, entry_subqueues = []\<rparr>
   \<and> main nan_lib ''31.01.2026''
        [\<lparr>region_oblast = Some ''Kyiv'', region_gid = Some ''UA-30''\<rparr>]
        [raw ''01.02.2026'' ''Kyiv'' '''' ''nan'' '''']
      = Inr [\<lparr>Date = ''01.02.2026'', Oblast = ''Kyiv'', GID_1 = ''UA-30'',
               Scheduled_outages = ''nan'', Actual_outages = [], Subqueues = []\<rparr>]
   \<and> present_values nan_lib raw_scheduled
        (group_rows (2026, 1, 31) [raw ''01.02.2026'' ''Kyiv'' '''' ''nan'' '''']
           (''01.02.2026'', ''Kyiv'')) = [None]
   \<and> lookup2 (snd (load_clean_data nan_lib (map as_dict_row
         [\<lparr>Date = ''01.02.2026'', Oblast = ''Kyiv'', GID_1 = ''UA-30'',
             Scheduled_outages = ''nan'', Actual_outages = [], Subqueues = []\<rparr>])))
        ''01.02.2026'' ''UA-30''
      = Some \<lparr>entry_scheduled = Some None, entry_actual = None, entry_subqueues = []\<rparr>
   \<and> \<not> equals_average nan_lib (Some None) [None]"
proof -
  have a: "main example_lib ''31.01.2026''
     [\<lparr>region_oblast = Some ''Kyiv'', region_gid = Some ''UA-30''\<rparr>,
      \<lparr>region_oblast = Some ''Kyiv City'', region_gid = Some ''UA-30''\<rparr>]
     [raw ''01.02.2026'' ''Kyiv'' '''' ''4'' '''']
    = Inr [\<lparr>Date = ''01.02.2026'', Oblast = ''Kyiv'', GID_1 = ''UA-30'',
             Scheduled_outages = ''4.0'', Actual_outages = [], Subqueues = []\<rparr>,
           \<lparr>Date = ''01.02.2026'', Oblast = ''Kyiv City'', GID_1 = ''UA-30'',
             Scheduled_outages = [], Actual_outages = [], Subqueues = []\<rparr>]"
    by code_simp
  have b: "parse_float_maps example_lib (Some ''4.0'') = Some 4" by code_simp
  have c: "lookup2 (snd (load_clean_data example_lib (map as_dict_row
         [\<lparr>Date = ''01.02.2026'', Oblast = ''Kyiv'', GID_1 = ''UA-30'',
             Scheduled_outages = ''4.0'', Actual_outages = [], Subqueues = []\<rparr>,
          \<lparr>Date = ''01.02.2026'', Oblast = ''Kyiv City'', GID_1 = ''UA-30'',
             Scheduled_outages = [], Actual_outages = [], Subqueues = []\<rparr>])))
        ''01.02.2026'' ''UA-30''
      = Some \<lparr>entry_scheduled = None, entry_actual = None, entry_subqueues = []\<rparr>"
    by code_simp
  have d: "main nan_lib ''31.01.2026''
        [\<lparr>region_oblast = Some ''Kyiv'', region_gid = Some ''UA-30''\<rparr>]
        [raw ''01.02.2026'' ''Kyiv'' '''' ''nan'' '''']
      = Inr [\<lparr>Date = ''01.02.2026'', Oblast = ''Kyiv'', GID_1 = ''UA-30'',
               Scheduled_outages = ''nan'', Actual_outages = [], Subqueues = []\<rparr>]"
    by code_simp
  have e: "present_values nan_lib raw_scheduled
        (group_rows (2026, 1, 31) [raw ''01.02.2026'' ''Kyiv'' '''' ''nan'' '''']
           (''01.02.2026'', ''Kyiv'')) = [None]"
    by code_simp
  have f: "lookup2 (snd (load_clean_data nan_lib (map as_dict_row
         [\<lparr>Date = ''01.02.2026'', Oblast = ''Kyiv'', GID_1 = ''UA-30'',
             Scheduled_outages = ''nan'', Actual_outages = [], Subqueues = []\<rparr>])))
        ''01.02.2026'' ''UA-30''
      = Some \<lparr>entry_scheduled = Some None, entry_actual = None, entry_subqueues = []\<rparr>"
    by code_simp
  have g: "\<not> equals_average nan_lib (Some None) [None]"
    by (simp add: equals_average_def nan_lib_def)
  from a b c d e f g show ?thesis by simp
qed

text \<open>
  Claim C3, amended: feeding the Clean Dataset Writer's output into the Map Data Loader
  gives, for every (date, region identifier) pair with a non-empty identifier, the
  values of the last row written with that date and identifier, and the scheduled and
  actual values loaded are numerically equal to the averages written in that row: absent
  where the row's group has no value, and otherwise a number equal (\<open>==\<close>) to the mean,
  provided the text that \<open>str\<close> writes for the mean is read back by \<open>float\<close> as a
  number equal to it (as it is for every Python float but NaN). When no two known region
  names share a non-empty identifier, every such pair is written by one row only. This
  is proved for a start date in the year 1000 or later, for which \<open>main\<close> writes
  its output.
\<close>

theorem round_trip:
  assumes "strptime start_arg = Some sd"
    and "load_region_ids region_rows = Inr region_ids"
    and "1000 \<le> fst sd"
  shows "\<exists>out dates data. main L start_arg region_rows raw_rows = Inr out
    \<and> load_clean_data L (map as_dict_row out) = (dates, data)
    \<and> (\<forall>r \<in> set out. GID_1 r \<noteq> [] \<longrightarrow>
          (\<exists>xs r' ys e. out = xs @ r' # ys
             \<and> Date r' = Date r \<and> GID_1 r' = GID_1 r
             \<and> (\<forall>y \<in> set ys. Date y \<noteq> Date r \<or> GID_1 y \<noteq> GID_1 r)
             \<and> lookup2 data (Date r) (GID_1 r) = Some e
             \<and> e = row_entry L (as_dict_row r')
             \<and> (let g = group_rows sd raw_rows (Date r', Oblast r');
                     sv = present_values L raw_scheduled g;
                     av = present_values L raw_actual g
                 in ((sv \<noteq> [] \<longrightarrow> str_reads_back L (mean L sv)) \<longrightarrow>
                       equals_average L (entry_scheduled e) sv)
                  \<and> ((av \<noteq> [] \<longrightarrow> str_reads_back L (mean L av)) \<longrightarrow>
                       equals_average L (entry_actual e) av))))
    \<and> ((\<forall>p \<in> set region_ids. \<forall>q \<in> set region_ids. snd p = snd q \<and> snd p \<noteq> [] \<longrightarrow> p = q) \<longrightarrow>
          (\<forall>r \<in> set out. \<forall>r' \<in> set out.
             Date r' = Date r \<and> GID_1 r' = GID_1 r \<and> GID_1 r \<noteq> [] \<longrightarrow> r' = r))"
proof -
  let ?a = "load_raw_data L sd raw_rows"
  let ?out = "write_rows L region_ids ?a (out_dates L sd raw_rows) (sort (map fst region_ids))"
  let ?file = "map as_dict_row ?out"
  let ?dates = "fst (load_clean_data L ?file)"
  let ?data = "snd (load_clean_data L ?file)"
  have m: "main L start_arg region_rows raw_rows = Inr ?out"
    by (rule main_eq[OF assms])
  have sm: "stripped_mapping region_ids" by (rule load_region_ids_stripped[OF assms(2)])
  note keys = written_row_keys[OF sm]
  have lc: "load_clean_data L ?file = (?dates, ?data)" by simp
  have lastrow: "\<exists>xs r' ys e. ?out = xs @ r' # ys
             \<and> Date r' = Date r \<and> GID_1 r' = GID_1 r
             \<and> (\<forall>y \<in> set ys. Date y \<noteq> Date r \<or> GID_1 y \<noteq> GID_1 r)
             \<and> lookup2 ?data (Date r) (GID_1 r) = Some e
             \<and> e = row_entry L (as_dict_row r')
             \<and> (let g = group_rows sd raw_rows (Date r', Oblast r');
                     sv = present_values L raw_scheduled g;
                     av = present_values L raw_actual g
                 in ((sv \<noteq> [] \<longrightarrow> str_reads_back L (mean L sv)) \<longrightarrow>
                       equals_average L (entry_scheduled e) sv)
                  \<and> ((av \<noteq> [] \<longrightarrow> str_reads_back L (mean L av)) \<longrightarrow>
                       equals_average L (entry_actual e) av))"
    if r: "r \<in> set ?out" and g: "GID_1 r \<noteq> []" for r
  proof -
    let ?P = "\<lambda>x. indexed x \<and> row_date_text x = Date r \<and> row_gid x = GID_1 r"
    have ix: "indexed (as_dict_row r)" using keys[OF r] g by (simp add: indexed_def)
    have mem: "as_dict_row r \<in> set ?file" using r by simp
    from last_row_for_exists[OF mem ix] obtain x where
      x: "last_row_for ?file (Date r) (GID_1 r) = Some x"
      using keys[OF r] by auto
    have "find ?P (map as_dict_row (rev ?out)) = Some x"
      using x by (simp only: last_row_for_def rev_map)
    then have "map_option as_dict_row (find (\<lambda>z. ?P (as_dict_row z)) (rev ?out)) = Some x"
      by (simp only: find_map_conv)
    then obtain r' where
      f: "find (\<lambda>z. ?P (as_dict_row z)) (rev ?out) = Some r'" and xr: "x = as_dict_row r'"
      by auto
    from find_rev_split[OF f] obtain xs ys where
      sp: "?out = xs @ r' # ys" and p: "?P (as_dict_row r')"
      and np: "\<forall>b \<in> set ys. \<not> ?P (as_dict_row b)"
      by blast
    have r'm: "r' \<in> set ?out" by (subst sp) simp
    have k1: "Date r' = Date r" "GID_1 r' = GID_1 r" using keys[OF r'm] p by simp_all
    have later: "\<forall>y \<in> set ys. Date y \<noteq> Date r \<or> GID_1 y \<noteq> GID_1 r"
    proof
      fix y assume y: "y \<in> set ys"
      then have ym: "y \<in> set ?out" by (subst sp) simp
      from np y have "\<not> ?P (as_dict_row y)" by blast
      then show "Date y \<noteq> Date r \<or> GID_1 y \<noteq> GID_1 r"
        using keys[OF ym] g by (auto simp: indexed_def)
    qed
    have lk: "lookup2 ?data (Date r) (GID_1 r) = Some (row_entry L (as_dict_row r'))"
      using x xr by (simp add: lookup2_load_clean_data)
    from r'm obtain d ob where e: "r' = output_row L region_ids ?a d ob"
      by (auto simp: set_write_rows)
    let ?g = "group_rows sd raw_rows (Date r', Oblast r')"
    have s: "Scheduled_outages r' = avg_text L (present_values L raw_scheduled ?g)"
      and a: "Actual_outages r' = avg_text L (present_values L raw_actual ?g)"
      by (simp_all add: e output_row_fields output_row_cells)
    have es: "entry_scheduled (row_entry L (as_dict_row r')) =
        parse_float_maps L (Some (avg_text L (present_values L raw_scheduled ?g)))"
      and ea: "entry_actual (row_entry L (as_dict_row r')) =
        parse_float_maps L (Some (avg_text L (present_values L raw_actual ?g)))"
      by (simp_all add: row_entry_as_dict_row s a)
    have v: "(let g = ?g; sv = present_values L raw_scheduled g; av = present_values L raw_actual g
           in ((sv \<noteq> [] \<longrightarrow> str_reads_back L (mean L sv)) \<longrightarrow>
                 equals_average L (entry_scheduled (row_entry L (as_dict_row r'))) sv)
            \<and> ((av \<noteq> [] \<longrightarrow> str_reads_back L (mean L av)) \<longrightarrow>
                 equals_average L (entry_actual (row_entry L (as_dict_row r'))) av))"
      unfolding Let_def es ea using avg_text_equals_average by blast
    from sp k1 later lk v show ?thesis by blast
  qed
  have c1: "\<forall>r \<in> set ?out. GID_1 r \<noteq> [] \<longrightarrow>
          (\<exists>xs r' ys e. ?out = xs @ r' # ys
             \<and> Date r' = Date r \<and> GID_1 r' = GID_1 r
             \<and> (\<forall>y \<in> set ys. Date y \<noteq> Date r \<or> GID_1 y \<noteq> GID_1 r)
             \<and> lookup2 ?data (Date r) (GID_1 r) = Some e
             \<and> e = row_entry L (as_dict_row r')
             \<and> (let g = group_rows sd raw_rows (Date r', Oblast r');
                     sv = present_values L raw_scheduled g;
                     av = present_values L raw_actual g
                 in ((sv \<noteq> [] \<longrightarrow> str_reads_back L (mean L sv)) \<longrightarrow>
                       equals_average L (entry_scheduled e) sv)
                  \<and> ((av \<noteq> [] \<longrightarrow> str_reads_back L (mean L av)) \<longrightarrow>
                       equals_average L (entry_actual e) av)))"
    using lastrow by (intro ballI impI)
  have c3: "(\<forall>p \<in> set region_ids. \<forall>q \<in> set region_ids. snd p = snd q \<and> snd p \<noteq> [] \<longrightarrow> p = q) \<longrightarrow>
          (\<forall>r \<in> set ?out. \<forall>r' \<in> set ?out.
             Date r' = Date r \<and> GID_1 r' = GID_1 r \<and> GID_1 r \<noteq> [] \<longrightarrow> r' = r)"
    using written_rows_unique[of region_ids _ L ?a "out_dates L sd raw_rows" "sort (map fst region_ids)"]
    by blast
  from m lc c1 c3 show ?thesis by blast
qed

text \<open>
  The theorem on the example input, where the two regions have different identifiers:
  what is loaded for Kyiv on 01.03.2026 is the mean of the two scheduled values, 4 and 6,
  and no actual value.
\<close>

theorem round_trip_witness:
  "strptime ''31.01.2026'' = Some (2026, 1, 31)
   \<and> load_region_ids example_regions = Inr [(''Lviv'', ''UA-46''), (''Kyiv'', ''UA-30'')]
   \<and> 1000 \<le> fst ((2026, 1, 31) :: date)
   \<and> str_reads_back example_lib (mean example_lib [4, 6])
   \<and> (\<exists>out dates data.
        main example_lib ''31.01.2026'' example_regions example_rows = Inr out
      \<and> load_clean_data example_lib (map as_dict_row out) = (dates, data)
      \<and> (\<exists>e. lookup2 data ''01.03.2026'' ''UA-30'' = Some e
             \<and> equals_average example_lib (entry_scheduled e) [4, 6]
             \<and> entry_scheduled e = Some 5 \<and> entry_actual e = None))"
proof -
  let ?ids = "[(''Lviv'', ''UA-46''), (''Kyiv'', ''UA-30'')]"
  have sv: "present_values example_lib raw_scheduled
             (group_rows (2026, 1, 31) example_rows (''01.03.2026'', ''Kyiv'')) = [4, 6]"
    by code_simp
  have av: "present_values example_lib raw_actual
             (group_rows (2026, 1, 31) example_rows (''01.03.2026'', ''Kyiv'')) = []"
    by code_simp
  have rb: "str_reads_back example_lib (mean example_lib [4, 6])" by code_simp
  have mn: "mean example_lib [4, 6] = 5" by (simp add: example_lib_def)
  have ids: "\<forall>p \<in> set ?ids. \<forall>q \<in> set ?ids. snd p = snd q \<and> snd p \<noteq> [] \<longrightarrow> p = q" by simp
  note rt = round_trip[OF example_start example_region_ids example_year, of example_lib example_rows]
  from rt have "\<exists>out dates data.
        main example_lib ''31.01.2026'' example_regions example_rows = Inr out
      \<and> load_clean_data example_lib (map as_dict_row out) = (dates, data)
      \<and> (\<exists>e. lookup2 data ''01.03.2026'' ''UA-30'' = Some e
             \<and> equals_average example_lib (entry_scheduled e) [4, 6]
             \<and> entry_scheduled e = Some 5 \<and> entry_actual e = None)"
  proof (elim exE conjE, goal_cases)
    case (1 out dates data)
    have l: "length out = 4" using 1(1) by (auto simp: example_main)
    have k: "Date (out ! 2) = ''01.03.2026''" "Oblast (out ! 2) = ''Kyiv''"
      "GID_1 (out ! 2) = ''UA-30''"
      using 1(1) by (auto simp: example_main)
    have mem: "out ! 2 \<in> set out" using l by simp
    have g: "GID_1 (out ! 2) \<noteq> []" unfolding k by simp
    from 1(3)[rule_format, OF mem g] obtain xs r' ys e where
      sp: "out = xs @ r' # ys" and
      kr: "Date r' = Date (out ! 2)" "GID_1 r' = GID_1 (out ! 2)" and
      e1: "lookup2 data (Date (out ! 2)) (GID_1 (out ! 2)) = Some e" and
      e2: "(let g = group_rows (2026, 1, 31) example_rows (Date r', Oblast r');
             sv = present_values example_lib raw_scheduled g;
             av = present_values example_lib raw_actual g
         in ((sv \<noteq> [] \<longrightarrow> str_reads_back example_lib (mean example_lib sv)) \<longrightarrow>
               equals_average example_lib (entry_scheduled e) sv)
          \<and> ((av \<noteq> [] \<longrightarrow> str_reads_back example_lib (mean example_lib av)) \<longrightarrow>
               equals_average example_lib (entry_actual e) av))"
      by blast
    have r'm: "r' \<in> set out" by (subst sp) simp
    from 1(4)[THEN mp, OF ids, rule_format, OF mem r'm] kr g have eq: "r' = out ! 2" by blast
    from e2 have "(([4, 6] :: rat list) \<noteq> [] \<longrightarrow> str_reads_back example_lib (mean example_lib [4, 6])) \<longrightarrow>
               equals_average example_lib (entry_scheduled e) [4, 6]"
      and "((([] :: rat list) \<noteq> [] \<longrightarrow> str_reads_back example_lib (mean example_lib [])) \<longrightarrow>
               equals_average example_lib (entry_actual e) [])"
      unfolding eq k Let_def sv av by blast+
    with rb have v: "equals_average example_lib (entry_scheduled e) [4, 6]"
      "equals_average example_lib (entry_actual e) []"
      by blast+
    from v(1) have v1: "entry_scheduled e = Some 5"
      unfolding mn equals_average_def by (auto simp: example_lib_def split: option.splits)
    from v(2) have v2: "entry_actual e = None"
      unfolding equals_average_def by (auto split: option.splits)
    have "lookup2 data ''01.03.2026'' ''UA-30'' = Some e" using e1 unfolding k .
    with v(1) v1 v2 1(1,2) show ?case by blast
  qed
  with rb show ?thesis
    using example_start example_region_ids example_year by blast
qed

section \<open>The claim about both scripts\<close>

text \<open>
  Claim C6, as stated: numeric coercion accepts exactly decimal-comma or decimal-point
  notation, and every other input string becomes absent. \<open>float()\<close> accepts more: the
  three texts below are no decimal numerals and are read as numbers.
\<close>

theorem coercion_accepts_more_counterexample:
  "\<not> spec_decimal ''1e3'' \<and> parse_float example_lib (Some ''1e3'') \<noteq> None
   \<and> \<not> spec_decimal ''nan'' \<and> parse_float example_lib (Some ''nan'') \<noteq> None
   \<and> \<not> spec_decimal ''1_000'' \<and> parse_float_maps example_lib (Some ''1_000'') \<noteq> None"
proof -
  have a: "\<not> spec_decimal ''1e3''" "\<not> spec_decimal ''nan''" "\<not> spec_decimal ''1_000''"
    by code_simp+
  have b: "float_syntax (replace_comma (strip ''1e3''))" "float_syntax (replace_comma (strip ''nan''))"
    "float_syntax (replace_comma (strip ''1_000''))" "strip ''1_000'' \<noteq> []"
    by code_simp+
  have "parse_float example_lib (Some ''1e3'') \<noteq> None"
    using b(1) parse_float_Some_iff[of example_lib "Some ''1e3''"] by blast
  moreover have "parse_float example_lib (Some ''nan'') \<noteq> None"
    using b(2) parse_float_Some_iff[of example_lib "Some ''nan''"] by blast
  moreover have "parse_float_maps example_lib (Some ''1_000'') \<noteq> None"
    using b by (simp add: parse_float_maps_def py_float_def Let_def)
  ultimately show ?thesis using a by simp
qed

text \<open>
  Claim C6, amended: in both scripts numeric coercion never raises and accepts exactly
  the texts that \<open>float()\<close> accepts once the surrounding whitespace is stripped and
  every comma is replaced by a point. These are all numerals in decimal-comma or
  decimal-point notation, and besides them exponent notation, digits grouped by
  underscores, \<open>inf\<close>, \<open>infinity\<close> and \<open>nan\<close>; for every other input string, and for
  a missing field, the field becomes absent. The two functions are extensionally equal.
\<close>

theorem coercion_accepts_float_syntax:
  "parse_float L v = parse_float_maps L v
   \<and> (parse_float L v \<noteq> None \<longleftrightarrow> (\<exists>s. v = Some s \<and> float_syntax (replace_comma (strip s))))
   \<and> (\<forall>s. spec_decimal (strip s) \<longrightarrow>
         parse_float L (Some s) = Some (float_value L (replace_comma (strip s))))"
proof -
  have "parse_float L v = parse_float_maps L v"
    by (simp add: parse_float_def parse_float_maps_def)
  moreover note parse_float_Some_iff[of L v]
  moreover have "\<forall>s. spec_decimal (strip s) \<longrightarrow>
         parse_float L (Some s) = Some (float_value L (replace_comma (strip s)))"
    using spec_decimal_accepted by blast
  ultimately show ?thesis by blast
qed

text \<open>The theorem on the text \<open> 4,5 \<close>, a numeral with a decimal comma, and on \<open>n/a\<close>.\<close>

theorem coercion_accepts_float_syntax_witness:
  "spec_decimal (strip '' 4,5 '')
   \<and> parse_float example_lib (Some '' 4,5 '') = Some (float_value example_lib ''4.5'')
   \<and> parse_float_maps example_lib (Some '' 4,5 '') = Some (float_value example_lib ''4.5'')
   \<and> \<not> float_syntax (replace_comma (strip ''n/a''))
   \<and> parse_float example_lib (Some ''n/a'') = None"
proof -
  have a: "spec_decimal (strip '' 4,5 '')" by code_simp
  have r: "replace_comma (strip '' 4,5 '') = ''4.5''" by code_simp
  have n: "\<not> float_syntax (replace_comma (strip ''n/a''))" by code_simp
  note t = coercion_accepts_float_syntax[of example_lib]
  have "parse_float example_lib (Some '' 4,5 '')
          = Some (float_value example_lib (replace_comma (strip '' 4,5 '')))"
    using t[of "Some '' 4,5 ''"] a by blast
  then have p: "parse_float example_lib (Some '' 4,5 '') = Some (float_value example_lib ''4.5'')"
    unfolding r .
  have "parse_float example_lib (Some '' 4,5 '') = parse_float_maps example_lib (Some '' 4,5 '')"
    using t[of "Some '' 4,5 ''"] by blast
  with p have q: "parse_float_maps example_lib (Some '' 4,5 '') = Some (float_value example_lib ''4.5'')"
    by simp
  have "parse_float example_lib (Some ''n/a'') = None"
    using t[of "Some ''n/a''"] n by blast
  with p q a n show ?thesis by blast
qed

section \<open>The claims about \<open>build_maps.py\<close>\<close>

text \<open>
  Claim C7, as stated: when the clean dataset has a row with a non-empty date string
  that does not parse and a non-empty region identifier, that row's values are indexed
  under the date string. A later row with the same date string and identifier replaces
  them: of the two rows below only the values of the second are in the structure.
  And the date string is in the returned date list when \<open>strftime\<close> writes the date of
  another row as that string: the date of the year 999 below is written \<open>01.01.999\<close>,
  with the year unpadded, which is the date string of the first row and does not parse.
\<close>

theorem bad_date_overwritten_counterexample:
  "strptime ''soon'' = None
   \<and> lookup2 (snd (load_clean_data example_lib
        [clean ''soon'' ''UA-30'' ''1'' '''' '''', clean ''soon'' ''UA-30'' ''2'' '''' '''']))
        ''soon'' ''UA-30''
       = Some \<lparr>entry_scheduled = Some 2, entry_actual = None, entry_subqueues = []\<rparr>
   \<and> row_entry example_lib (clean ''soon'' ''UA-30'' ''1'' '''' '''')
       = \<lparr>entry_scheduled = Some 1, entry_actual = None, entry_subqueues = []\<rparr>
   \<and> strptime ''01.01.999'' = None
   \<and> fst (load_clean_data example_lib
        [clean ''01.01.999'' ''UA-30'' ''1'' '''' '''', clean ''01.01.0999'' ''UA-30'' ''2'' '''' ''''])
       = [''01.01.999'']"
proof -
  have a: "strptime ''soon'' = None" by code_simp
  have b: "lookup2 (snd (load_clean_data example_lib
        [clean ''soon'' ''UA-30'' ''1'' '''' '''', clean ''soon'' ''UA-30'' ''2'' '''' '''']))
        ''soon'' ''UA-30''
       = Some \<lparr>entry_scheduled = Some 2, entry_actual = None, entry_subqueues = []\<rparr>"
    by code_simp
  have c: "row_entry example_lib (clean ''soon'' ''UA-30'' ''1'' '''' '''')
       = \<lparr>entry_scheduled = Some 1, entry_actual = None, entry_subqueues = []\<rparr>"
    by code_simp
  have d: "strptime ''01.01.999'' = None" by code_simp
  have e: "fst (load_clean_data example_lib
        [clean ''01.01.999'' ''UA-30'' ''1'' '''' '''', clean ''01.01.0999'' ''UA-30'' ''2'' '''' ''''])
       = [''01.01.999'']"
    by code_simp
  from a b c d e show ?thesis by simp
qed

text \<open>
  Claim C7, amended: for every clean-dataset input with a row that has a non-empty
  (stripped) date string that does not parse under the format day.month.year and a
  non-empty region identifier, the Map Data Loader does not abort: the nested keyed
  structure has an entry under that date string and identifier, with the values of the
  last row of the file that has this date string and identifier, which are that row's
  own values when no later row repeats both. The date string is in the returned date
  list only when \<open>strftime\<close> writes the parsed date of some indexed row of the file as
  exactly that string; it is not in the list when every date parsed from the file is in
  the year 1000 or later.
\<close>

theorem bad_date_still_indexed:
  assumes "row_date_text r \<noteq> []" and "row_gid r \<noteq> []"
    and "strptime (row_date_text r) = None"
  shows "\<exists>dates data. load_clean_data L (xs @ r # ys) = (dates, data)
    \<and> (row_date_text r \<in> set dates \<longleftrightarrow>
         (\<exists>y \<in> set (xs @ r # ys). \<exists>d. indexed y \<and> strptime (row_date_text y) = Some d
              \<and> strftime d = row_date_text r))
    \<and> ((\<forall>y \<in> set (xs @ r # ys). \<forall>d.
           indexed y \<and> strptime (row_date_text y) = Some d \<longrightarrow> 1000 \<le> fst d) \<longrightarrow>
         row_date_text r \<notin> set dates)
    \<and> (\<exists>r' \<in> set (r # ys). row_date_text r' = row_date_text r \<and> row_gid r' = row_gid r
          \<and> lookup2 data (row_date_text r) (row_gid r) = Some (row_entry L r'))
    \<and> ((\<forall>y \<in> set ys. row_date_text y \<noteq> row_date_text r \<or> row_gid y \<noteq> row_gid r) \<longrightarrow>
          lookup2 data (row_date_text r) (row_gid r) = Some (row_entry L r))"
proof -
  let ?rows = "xs @ r # ys"
  let ?dates = "fst (load_clean_data L ?rows)"
  let ?data = "snd (load_clean_data L ?rows)"
  let ?same = "\<lambda>x. indexed x \<and> row_date_text x = row_date_text r \<and> row_gid x = row_gid r"
  have ix: "indexed r" using assms by (simp add: indexed_def)
  have di: "row_date_text r \<in> set ?dates \<longleftrightarrow>
         (\<exists>y \<in> set ?rows. \<exists>d. indexed y \<and> strptime (row_date_text y) = Some d
              \<and> strftime d = row_date_text r)"
  proof
    assume "row_date_text r \<in> set ?dates"
    then obtain d y where "row_date_text r = strftime d" "y \<in> set ?rows" "indexed y"
      "strptime (row_date_text y) = Some d"
      unfolding dates_load_clean_data mem_Collect_eq by blast
    then have "y \<in> set ?rows" "indexed y \<and> strptime (row_date_text y) = Some d
        \<and> strftime d = row_date_text r"
      by simp_all
    then show "\<exists>y \<in> set ?rows. \<exists>d. indexed y \<and> strptime (row_date_text y) = Some d
              \<and> strftime d = row_date_text r"
      by blast
  next
    assume "\<exists>y \<in> set ?rows. \<exists>d. indexed y \<and> strptime (row_date_text y) = Some d
              \<and> strftime d = row_date_text r"
    then obtain y d where "y \<in> set ?rows" "indexed y" "strptime (row_date_text y) = Some d"
      "strftime d = row_date_text r"
      by blast
    then have "\<exists>d' y'. row_date_text r = strftime d' \<and> y' \<in> set ?rows \<and> indexed y'
        \<and> strptime (row_date_text y') = Some d'"
      by metis
    then show "row_date_text r \<in> set ?dates"
      unfolding dates_load_clean_data mem_Collect_eq .
  qed
  have nd: "(\<forall>y \<in> set ?rows. \<forall>d.
           indexed y \<and> strptime (row_date_text y) = Some d \<longrightarrow> 1000 \<le> fst d) \<longrightarrow>
         row_date_text r \<notin> set ?dates"
  proof (intro impI notI)
    assume yr: "\<forall>y \<in> set ?rows. \<forall>d.
           indexed y \<and> strptime (row_date_text y) = Some d \<longrightarrow> 1000 \<le> fst d"
      and "row_date_text r \<in> set ?dates"
    with di obtain y d where y: "y \<in> set ?rows" "indexed y"
      "strptime (row_date_text y) = Some d" "strftime d = row_date_text r"
      by blast
    have "valid_date d" using y(3) by (rule strptime_valid)
    moreover have "1000 \<le> fst d" using yr y(1,2,3) by blast
    ultimately have "strptime (strftime d) = Some d" by (rule strptime_strftime)
    with assms(3) y(4) show False by simp
  qed
  have lk: "lookup2 ?data (row_date_text r) (row_gid r) =
      map_option (row_entry L) (last_row_for ?rows (row_date_text r) (row_gid r))"
    by (rule lookup2_load_clean_data)
  have split: "last_row_for ?rows (row_date_text r) (row_gid r) =
      (case find ?same (rev ys) of None \<Rightarrow> Some r | Some y \<Rightarrow> Some y)"
    using ix by (simp add: last_row_for_def find_append_conv split: option.splits)
  have some: "\<exists>r' \<in> set (r # ys). row_date_text r' = row_date_text r \<and> row_gid r' = row_gid r
          \<and> lookup2 ?data (row_date_text r) (row_gid r) = Some (row_entry L r')"
  proof (cases "find ?same (rev ys)")
    case None
    then show ?thesis using lk split by simp
  next
    case (Some y)
    from find_SomeD[OF Some] have "y \<in> set ys" "row_date_text y = row_date_text r"
      "row_gid y = row_gid r" by simp_all
    then show ?thesis using lk split Some by auto
  qed
  have last: "(\<forall>y \<in> set ys. row_date_text y \<noteq> row_date_text r \<or> row_gid y \<noteq> row_gid r) \<longrightarrow>
      lookup2 ?data (row_date_text r) (row_gid r) = Some (row_entry L r)"
    using last_row_for_append[OF ix, of ys xs] lk by simp
  have "load_clean_data L ?rows = (?dates, ?data)" by simp
  with di nd some last show ?thesis by blast
qed

text \<open>
  The theorem on a file of two rows, the first with the date string \<open>soon\<close>: it is
  indexed and missing from the date list, which has the date of the second row.
\<close>

theorem bad_date_still_indexed_witness:
  "row_date_text (clean ''soon'' ''UA-30'' ''1'' '''' '''') \<noteq> []
   \<and> row_gid (clean ''soon'' ''UA-30'' ''1'' '''' '''') \<noteq> []
   \<and> strptime (row_date_text (clean ''soon'' ''UA-30'' ''1'' '''' '''')) = None
   \<and> strptime ''01.02.2026'' = Some (2026, 2, 1) \<and> 1000 \<le> fst ((2026, 2, 1) :: date)
   \<and> (\<exists>dates data.
        load_clean_data example_lib
          [clean ''soon'' ''UA-30'' ''1'' '''' '''', clean ''01.02.2026'' ''UA-30'' ''2'' '''' '''']
          = (dates, data)
      \<and> ''soon'' \<notin> set dates \<and> dates = [''01.02.2026'']
      \<and> lookup2 data ''soon'' ''UA-30'' =
           Some \<lparr>entry_scheduled = Some 1, entry_actual = None, entry_subqueues = []\<rparr>)"
proof -
  let ?r = "clean ''soon'' ''UA-30'' ''1'' '''' ''''"
  let ?y = "clean ''01.02.2026'' ''UA-30'' ''2'' '''' ''''"
  have d: "row_date_text ?r = ''soon''" by code_simp
  have g: "row_gid ?r = ''UA-30''" by code_simp
  have n: "strptime ''soon'' = None" by code_simp
  have y: "row_date_text ?y = ''01.02.2026''" by code_simp
  have e: "row_entry example_lib ?r
       = \<lparr>entry_scheduled = Some 1, entry_actual = None, entry_subqueues = []\<rparr>"
    by code_simp
  have dl: "fst (load_clean_data example_lib [?r, ?y]) = [''01.02.2026'']" by code_simp
  have a1: "row_date_text ?r \<noteq> []" by (simp add: d)
  have a2: "row_gid ?r \<noteq> []" by (simp add: g)
  have a3: "strptime (row_date_text ?r) = None" by (simp add: d n)
  have p: "strptime ''01.02.2026'' = Some (2026, 2, 1)" by code_simp
  have yr: "\<forall>y \<in> set ([] @ ?r # [?y]). \<forall>d.
      indexed y \<and> strptime (row_date_text y) = Some d \<longrightarrow> 1000 \<le> fst d"
    by (auto simp: d n y p)
  from bad_date_still_indexed[OF a1 a2 a3, of example_lib "[]" "[?y]"]
  obtain dates data where
    o0: "load_clean_data example_lib ([] @ ?r # [?y]) = (dates, data)"
       "(\<forall>y \<in> set ([] @ ?r # [?y]). \<forall>d.
           indexed y \<and> strptime (row_date_text y) = Some d \<longrightarrow> 1000 \<le> fst d) \<longrightarrow>
         row_date_text ?r \<notin> set dates"
       "(\<forall>y \<in> set [?y]. row_date_text y \<noteq> row_date_text ?r \<or> row_gid y \<noteq> row_gid ?r) \<longrightarrow>
          lookup2 data (row_date_text ?r) (row_gid ?r) = Some (row_entry example_lib ?r)"
    by blast
  from o0(1) have o1: "load_clean_data example_lib [?r, ?y] = (dates, data)" by simp
  from o0(2) yr have o2: "row_date_text ?r \<notin> set dates" by blast
  note o = o1 o2 o0(3)
  have "\<forall>y \<in> set [?y]. row_date_text y \<noteq> row_date_text ?r \<or> row_gid y \<noteq> row_gid ?r"
    by (simp add: d y)
  with o(3) have "lookup2 data ''soon'' ''UA-30'' =
       Some \<lparr>entry_scheduled = Some 1, entry_actual = None, entry_subqueues = []\<rparr>"
    by (simp only: d g e)
  moreover have "dates = [''01.02.2026'']" using dl o(1) by simp
  moreover have "''soon'' \<notin> set dates" using o(2) unfolding d .
  ultimately show ?thesis using o(1) a1 a2 a3 p by simp
qed

text \<open>
  Claim C10. Every date string in the date list that \<open>load_clean_data\<close> returns is a key
  of the mapping it returns. The mapping is keyed by the date string of the file, the
  list holds the parsed dates formatted anew: for a row whose date is written
  \<open>1.2.2026\<close> the list has \<open>01.02.2026\<close>, which is no key of the mapping, so the
  rendered page offers a date for which it finds no data.
\<close>

theorem date_list_key_mismatch:
  "load_clean_data example_lib [clean ''1.2.2026'' ''UA-30'' ''4'' ''5'' ''A'']
     = ([''01.02.2026''],
        [(''1.2.2026'',
          [(''UA-30'', \<lparr>entry_scheduled = Some 4, entry_actual = Some 5, entry_subqueues = ''A''\<rparr>)])])
   \<and> ''01.02.2026'' \<in> set (fst (load_clean_data example_lib [clean ''1.2.2026'' ''UA-30'' ''4'' ''5'' ''A'']))
   \<and> map_of (snd (load_clean_data example_lib [clean ''1.2.2026'' ''UA-30'' ''4'' ''5'' ''A'']))
        ''01.02.2026'' = None"
proof -
  have a: "load_clean_data example_lib [clean ''1.2.2026'' ''UA-30'' ''4'' ''5'' ''A'']
     = ([''01.02.2026''],
        [(''1.2.2026'',
          [(''UA-30'', \<lparr>entry_scheduled = Some 4, entry_actual = Some 5, entry_subqueues = ''A''\<rparr>)])])"
    by code_simp
  show ?thesis unfolding a by simp
qed

section \<open>The colour buckets of the rendered document\<close>

text \<open>
  Claim C9. \<open>getColor\<close> maps an hour value to one of seven fixed buckets
  (0; 1-4; 5-8; 9-12; 13-16; 17-20; 21-24) whose bounds are inclusive on both ends, and an
  absent value to an eighth bucket, \<open>No data\<close>: an hour count that lies in a bucket of
  the specification gets the colour the legend shows beside that bucket's label, every
  hour count from 0 to 24 lies in a bucket, a value that is not an integer is rounded to
  the nearest integer first, 0 is in bucket \<open>0\<close>, 4 in \<open>1-4\<close>, 24 in \<open>21-24\<close>,
  the three absent values are \<open>No data\<close>, and no value gets a colour outside the
  eight of the legend.
\<close>

theorem getColor_buckets:
  "(\<forall>h l. spec_bucket h = Some l \<longrightarrow> map_of legend l = Some (getColor (Number (of_int h))))
   \<and> (\<forall>h. 0 \<le> h \<and> h \<le> 24 \<longrightarrow> spec_bucket h \<noteq> None)
   \<and> (\<forall>r. getColor (Number r) = getColor (Number (of_int \<lfloor>r + 1 / 2\<rfloor>)))
   \<and> map_of legend ''0'' = Some (getColor (Number 0))
   \<and> map_of legend ''1-4'' = Some (getColor (Number 4))
   \<and> map_of legend ''21-24'' = Some (getColor (Number 24))
   \<and> (\<forall>v \<in> {Null, Undefined, EmptyString}. map_of legend ''No data'' = Some (getColor v))
   \<and> (\<forall>v. getColor v \<in> snd ` set legend)
   \<and> distinct (map fst legend) \<and> distinct (map snd legend) \<and> length legend = 8"
proof (intro conjI allI impI ballI)
  fix h l assume "spec_bucket h = Some l"
  then show "map_of legend l = Some (getColor (Number (of_int h)))"
    unfolding spec_bucket_cases getColor_int
    by (auto simp: legend_def palette_def split: if_splits)
next
  fix h :: int assume "0 \<le> h \<and> h \<le> 24"
  then show "spec_bucket h \<noteq> None" unfolding spec_bucket_cases by auto
next
  fix r show "getColor (Number r) = getColor (Number (of_int \<lfloor>r + 1 / 2\<rfloor>))"
    by (rule getColor_round)
next
  show "map_of legend ''0'' = Some (getColor (Number 0))"
    using getColor_int[of 0] by (simp add: legend_def palette_def)
  show "map_of legend ''1-4'' = Some (getColor (Number 4))"
    using getColor_int[of 4] by (simp add: legend_def palette_def)
  show "map_of legend ''21-24'' = Some (getColor (Number 24))"
    using getColor_int[of 24] by (simp add: legend_def palette_def)
next
  fix v :: js_value assume "v \<in> {Null, Undefined, EmptyString}"
  then show "map_of legend ''No data'' = Some (getColor v)"
    by (auto simp: getColor_def legend_def palette_def)
next
  fix v show "getColor v \<in> snd ` set legend"
    by (simp add: getColor_def legend_def palette_def color_def Let_def)
next
  show "distinct (map fst legend)" by (simp add: legend_def palette_def)
  show "distinct (map snd legend)" by (simp add: legend_def palette_def)
  show "length legend = 8" by (simp add: legend_def palette_def)
qed

text \<open>The theorem at the hour count 7 and at \<open>null\<close>.\<close>

theorem getColor_buckets_witness:
  "spec_bucket 7 = Some ''5-8'' \<and> map_of legend ''5-8'' = Some (getColor (Number 7))
   \<and> getColor (Number 7) = ''#f5c76b''
   \<and> map_of legend ''No data'' = Some (getColor Null)"
proof -
  have a: "spec_bucket 7 = Some ''5-8''" by (simp add: spec_bucket_def spec_buckets_def)
  have "map_of legend ''5-8'' = Some (getColor (Number (of_int 7)))"
    using getColor_buckets a by blast
  moreover have "map_of legend ''No data'' = Some (getColor Null)"
    using getColor_buckets by blast
  moreover have "map_of legend ''5-8'' = Some ''#f5c76b''" by (simp add: legend_def palette_def)
  ultimately show ?thesis using a by simp
qed

end
